theory Spec2Isabelle
  imports Main "HOL-Library.Sublist" "HOL-Library.AList"
begin

section \<open>Python values and string primitives\<close>

text \<open>
  The scraper is Python. Its strings are modelled as \<^typ>\<open>string\<close>, its unbounded
  integers as \<^typ>\<open>int\<close>, \<open>None\<close> as \<^const>\<open>None\<close> of an option type, and a value
  of type \<open>Any\<close> (a configuration entry, a field of an article dictionary) as a
  \<open>pyval\<close>. A dictionary with string keys is an association list whose keys are
  distinct, in insertion order. The characters of a string are those of \<^typ>\<open>char\<close>,
  the code points below 256. Calls of the logger change no result and are left out.
\<close>

datatype pyval = PNone | PBool bool | PInt int | PStr string

type_synonym pydict = "(string \<times> pyval) list"

datatype py_error = ValueError | TypeError

text \<open>Truth value testing (\<open>if x:\<close>, \<open>not x\<close>, \<open>x or y\<close>).\<close>

fun truthy :: "pyval \<Rightarrow> bool" where
  "truthy PNone = False"
| "truthy (PBool b) = b"
| "truthy (PInt i) = (i \<noteq> 0)"
| "truthy (PStr s) = (s \<noteq> [])"

text \<open>\<open>d.get(key)\<close>: the value stored under the key, \<open>None\<close> when the key is missing.\<close>

definition dict_get :: "pydict \<Rightarrow> string \<Rightarrow> pyval" where
  "dict_get d k = (case map_of d k of None \<Rightarrow> PNone | Some v \<Rightarrow> v)"

text \<open>Decimal rendering of an integer, as \<open>str(n)\<close> and \<open>f"{n}"\<close> produce it.\<close>

definition digit_char :: "nat \<Rightarrow> char" where
  "digit_char d = ''0123456789'' ! d"

fun str_nat :: "nat \<Rightarrow> string" where
  "str_nat n = (if n < 10 then [digit_char n] else str_nat (n div 10) @ [digit_char (n mod 10)])"

declare str_nat.simps [simp del]

definition str_int :: "int \<Rightarrow> string" where
  "str_int i = (if i < 0 then CHR ''-'' # str_nat (nat (- i)) else str_nat (nat i))"

fun py_str :: "pyval \<Rightarrow> string" where
  "py_str PNone = ''None''"
| "py_str (PBool b) = (if b then ''True'' else ''False'')"
| "py_str (PInt i) = str_int i"
| "py_str (PStr s) = s"

text \<open>
  Whitespace as \<open>str.strip()\<close>, \<open>str.split()\<close> and \<open>int()\<close> see it among the
  characters of the model: tab to carriage return, the four separators
  \<open>0x1c\<close> to \<open>0x1f\<close>, the space, \<open>0x85\<close> and \<open>0xa0\<close>.
\<close>

definition is_space :: "char \<Rightarrow> bool" where
  "is_space c = (let n = of_char c :: nat in
     (9 \<le> n \<and> n \<le> 13) \<or> (28 \<le> n \<and> n \<le> 32) \<or> n = 133 \<or> n = 160)"

definition strip :: "string \<Rightarrow> string" where
  "strip s = rev (dropWhile is_space (rev (dropWhile is_space s)))"

text \<open>\<open>s.lstrip(chars)\<close> removes every leading character that occurs in \<open>chars\<close>.\<close>

definition lstrip_chars :: "string \<Rightarrow> string \<Rightarrow> string" where
  "lstrip_chars chars s = dropWhile (\<lambda>c. c \<in> set chars) s"

definition startswith :: "string \<Rightarrow> string \<Rightarrow> bool" where
  "startswith s p = (take (length p) s = p)"

text \<open>\<open>sub in s\<close>.\<close>

fun contains :: "string \<Rightarrow> string \<Rightarrow> bool" where
  "contains [] sub = (sub = [])"
| "contains (c # cs) sub = (startswith (c # cs) sub \<or> contains cs sub)"

text \<open>\<open>s.find(sub)\<close>: the lowest index where \<open>sub\<close> starts, \<open>None\<close> for Python's \<open>-1\<close>.\<close>

fun find_sub :: "string \<Rightarrow> string \<Rightarrow> nat option" where
  "find_sub [] sub = (if sub = [] then Some 0 else None)"
| "find_sub (c # cs) sub =
     (if startswith (c # cs) sub then Some 0 else map_option Suc (find_sub cs sub))"

text \<open>\<open>s.split(sep)[0]\<close>: the part of \<open>s\<close> before the first occurrence of \<open>sep\<close>.\<close>

definition before_sep :: "string \<Rightarrow> string \<Rightarrow> string" where
  "before_sep sep s = (case find_sub s sep of None \<Rightarrow> s | Some i \<Rightarrow> take i s)"

text \<open>\<open>len(s.split())\<close>: the number of maximal runs of non-whitespace characters.\<close>

fun count_words :: "bool \<Rightarrow> string \<Rightarrow> nat" where
  "count_words inword [] = 0"
| "count_words inword (c # cs) =
     (if is_space c then count_words False cs
      else (if inword then 0 else 1) + count_words True cs)"

text \<open>
  \<open>int(s)\<close> on a string: surrounding whitespace is dropped, one sign is allowed, and
  the rest must be decimal digits, single underscores allowed between digits; anything
  else raises \<open>ValueError\<close>. The whitespace \<open>int()\<close> drops is narrower than that of
  \<open>str.strip()\<close>: tab to carriage return, the space, \<open>0x85\<close> and \<open>0xa0\<close>, not the
  separators \<open>0x1c\<close> to \<open>0x1f\<close>. A string of more than 4300 digits, the default of
  \<open>sys.int_max_str_digits\<close>, raises \<open>ValueError\<close> too.
\<close>

definition is_int_space :: "char \<Rightarrow> bool" where
  "is_int_space c = (let n = of_char c :: nat in
     (9 \<le> n \<and> n \<le> 13) \<or> n = 32 \<or> n = 133 \<or> n = 160)"

definition int_max_str_digits :: nat where
  "int_max_str_digits = 4300"

definition is_digit :: "char \<Rightarrow> bool" where
  "is_digit c = (let n = of_char c :: nat in 48 \<le> n \<and> n \<le> 57)"

definition digit_val :: "char \<Rightarrow> int" where
  "digit_val c = int (of_char c) - 48"

fun digits_val :: "int \<Rightarrow> bool \<Rightarrow> string \<Rightarrow> int option" where
  "digits_val acc after_digit [] = (if after_digit then Some acc else None)"
| "digits_val acc after_digit (c # cs) =
     (if is_digit c then digits_val (acc * 10 + digit_val c) True cs
      else if c = CHR ''_'' \<and> after_digit \<and> cs \<noteq> [] \<and> is_digit (hd cs)
        then digits_val acc False cs
      else None)"

definition int_of_string :: "string \<Rightarrow> int option" where
  "int_of_string s =
     (case rev (dropWhile is_int_space (rev (dropWhile is_int_space s))) of
        [] \<Rightarrow> None
      | c # cs \<Rightarrow>
          if length (filter is_digit (c # cs)) > int_max_str_digits then None
          else if c = CHR ''-'' then map_option uminus (digits_val 0 False cs)
          else if c = CHR ''+'' then digits_val 0 False cs
          else digits_val 0 False (c # cs))"

text \<open>\<open>int(x)\<close> on a value: \<open>int(None)\<close> raises \<open>TypeError\<close>.\<close>

fun py_int :: "pyval \<Rightarrow> py_error + int" where
  "py_int PNone = Inl TypeError"
| "py_int (PBool b) = Inr (if b then 1 else 0)"
| "py_int (PInt i) = Inr i"
| "py_int (PStr s) = (case int_of_string s of None \<Rightarrow> Inl ValueError | Some i \<Rightarrow> Inr i)"

section \<open>Time window: \<open>utils_date_filter.py\<close>\<close>

text \<open>
  \<open>build_time_range(hours, days, years)\<close>, its arguments typed \<open>Optional[int]\<close>.
\<close>

definition build_time_range :: "int option \<Rightarrow> int option \<Rightarrow> int option \<Rightarrow> string option" where
  "build_time_range hours days years =
     (if hours \<noteq> None \<and> the hours > 0 then Some (str_int (the hours) @ ''h'')
      else if days \<noteq> None \<and> the days > 0 then Some (str_int (the days) @ ''d'')
      else if years \<noteq> None \<and> the years > 0 then Some (str_int (the years) @ ''y'')
      else None)"

text \<open>
  An instant is a number of microseconds (the resolution of \<open>datetime\<close>) since the
  epoch, in UTC; a \<open>timedelta\<close> is a number of microseconds. A \<open>datetime\<close> lies
  between \<open>datetime.min\<close>, the start of year 1, and \<open>datetime.max\<close>, the last
  microsecond of year 9999; arithmetic that leaves this range raises \<open>OverflowError\<close>.
  The clock reading is taken to lie far inside the range, so that the subtraction in
  \<open>parse_since_from_relative_config\<close> is written without the test.
\<close>

type_synonym instant = int

definition DATETIME_MIN :: instant where
  "DATETIME_MIN = - 62135596800000000"

definition DATETIME_MAX :: instant where
  "DATETIME_MAX = 253402300799999999"

definition timedelta_hours :: "int \<Rightarrow> int" where
  "timedelta_hours h = h * 3600000000"

definition timedelta_days :: "int \<Rightarrow> int" where
  "timedelta_days d = d * 86400000000"

text \<open>
  \<open>parse_since_from_relative_config(cfg)\<close>. The clock reading \<open>now\<close> is an argument.
  The entries of \<open>cfg\<close> are of type \<open>Any\<close>; each is tested for truth and then
  converted with \<open>int()\<close>, whose error is not caught.
\<close>

definition parse_since_from_relative_config :: "instant \<Rightarrow> pydict \<Rightarrow> py_error + instant option" where
  "parse_since_from_relative_config now cfg =
     (let hours = dict_get cfg ''hours'';
          days = dict_get cfg ''days'';
          years = dict_get cfg ''years''
      in if truthy hours then
           (case py_int hours of Inl e \<Rightarrow> Inl e
            | Inr h \<Rightarrow> Inr (Some (now - timedelta_hours h)))
         else if truthy days then
           (case py_int days of Inl e \<Rightarrow> Inl e
            | Inr d \<Rightarrow> Inr (Some (now - timedelta_days d)))
         else if truthy years then
           (case py_int years of Inl e \<Rightarrow> Inl e
            | Inr y \<Rightarrow> Inr (Some (now - timedelta_days (y * 365))))
         else Inr None)"

text \<open>
  What \<open>dateutil\<close>'s \<open>parse\<close> returns: a wall-clock reading, in microseconds, and the
  offset of its time zone from UTC, \<open>None\<close> for a naive timestamp. The parser itself is
  outside the repository and is an argument of the functions that call it; it returns
  \<open>None\<close> where it raises.
\<close>

record parsed_datetime =
  wall :: int
  utcoffset :: "int option"

text \<open>
  The normalisation inside the \<open>try\<close> block: a naive timestamp is given the UTC zone
  as it stands, an aware one is converted with \<open>astimezone\<close>, which subtracts the
  offset and raises \<open>OverflowError\<close> (here \<open>None\<close>) when the result leaves the range
  of \<open>datetime\<close>.
\<close>

definition to_utc :: "parsed_datetime \<Rightarrow> instant option" where
  "to_utc p =
     (case utcoffset p of
        None \<Rightarrow> Some (wall p)
      | Some off \<Rightarrow>
          if DATETIME_MIN \<le> wall p - off \<and> wall p - off \<le> DATETIME_MAX then Some (wall p - off)
          else None)"

text \<open>
  \<open>filter_articles_by_published_at(articles, since)\<close>: the loop, with the list
  \<open>filtered\<close> it appends to. The \<open>try\<close> holds the parse and the normalisation; the
  handler keeps the record whichever of the two raises.
\<close>

fun filter_loop :: "(string \<Rightarrow> parsed_datetime option) \<Rightarrow> instant \<Rightarrow> pydict list \<Rightarrow> pydict list \<Rightarrow> pydict list" where
  "filter_loop date_parse since_utc filtered [] = filtered"
| "filter_loop date_parse since_utc filtered (art # arts) =
     (let published_raw = dict_get art ''publishedAt'' in
      if \<not> truthy published_raw then filter_loop date_parse since_utc (filtered @ [art]) arts
      else
        (case date_parse (py_str published_raw) of
           None \<Rightarrow> filter_loop date_parse since_utc (filtered @ [art]) arts
         | Some p \<Rightarrow>
             (case to_utc p of
                None \<Rightarrow> filter_loop date_parse since_utc (filtered @ [art]) arts
              | Some parsed_dt \<Rightarrow>
                  if parsed_dt \<ge> since_utc then filter_loop date_parse since_utc (filtered @ [art]) arts
                  else filter_loop date_parse since_utc filtered arts)))"

definition filter_articles_by_published_at :: "(string \<Rightarrow> parsed_datetime option) \<Rightarrow> pydict list \<Rightarrow> instant \<Rightarrow> pydict list" where
  "filter_articles_by_published_at date_parse articles since = filter_loop date_parse since [] articles"

section \<open>The parsed page\<close>

text \<open>
  The page as \<open>BeautifulSoup\<close> presents it: a tree of elements, each with its tag
  name, its attribute dictionary and its children in document order, and of the text
  strings that \<open>get_text\<close> collects.
\<close>

datatype node = Text string | Element string "(string \<times> string) list" "node list"

text \<open>Every node below a node, in document order.\<close>

fun descendants :: "node \<Rightarrow> node list" where
  "descendants (Text s) = []"
| "descendants (Element name attrs children) = concat (map (\<lambda>c. c # descendants c) children)"

fun is_tag :: "string \<Rightarrow> node \<Rightarrow> bool" where
  "is_tag name (Text s) = False"
| "is_tag name (Element name' attrs children) = (name' = name)"

text \<open>\<open>tag.get(key)\<close>.\<close>

fun get_attr :: "node \<Rightarrow> string \<Rightarrow> string option" where
  "get_attr (Text s) key = None"
| "get_attr (Element name attrs children) key = map_of attrs key"

text \<open>\<open>tag.find_all(name)\<close> and \<open>tag.find(name)\<close>.\<close>

definition find_all :: "string \<Rightarrow> node \<Rightarrow> node list" where
  "find_all name n = filter (is_tag name) (descendants n)"

definition find_first :: "string \<Rightarrow> node \<Rightarrow> node option" where
  "find_first name n = (case find_all name n of [] \<Rightarrow> None | x # xs \<Rightarrow> Some x)"

text \<open>
  \<open>tag.find(name, key=True)\<close>: the first element of that name that has the attribute,
  whatever its value.
\<close>

definition find_with_attr :: "string \<Rightarrow> string \<Rightarrow> node \<Rightarrow> node option" where
  "find_with_attr name key n =
     (case filter (\<lambda>d. is_tag name d \<and> get_attr d key \<noteq> None) (descendants n) of
        [] \<Rightarrow> None | x # xs \<Rightarrow> Some x)"

fun text_of :: "node \<Rightarrow> string option" where
  "text_of (Text s) = Some s"
| "text_of (Element name attrs children) = None"

fun join :: "string \<Rightarrow> string list \<Rightarrow> string" where
  "join sep [] = []"
| "join sep [s] = s"
| "join sep (s # t # ss) = s @ sep @ join sep (t # ss)"

text \<open>
  \<open>tag.get_text(separator, strip=True)\<close>: the strings below the tag, each stripped, the
  empty ones left out, joined by the separator.
\<close>

definition get_text :: "string \<Rightarrow> node \<Rightarrow> string" where
  "get_text sep n =
     join sep (filter (\<lambda>s. s \<noteq> []) (map strip (List.map_filter text_of (descendants n))))"

text \<open>\<open>a or b\<close> on two optional strings.\<close>

definition or_else :: "string option \<Rightarrow> string option \<Rightarrow> string option" where
  "or_else a b = (case a of None \<Rightarrow> b | Some s \<Rightarrow> if s = [] then b else Some s)"

section \<open>Field extractors: \<open>google_news_parser.py\<close>\<close>

definition GOOGLE_NEWS_BASE :: string where
  "GOOGLE_NEWS_BASE = ''https://news.google.com''"

definition extract_title :: "node \<Rightarrow> string" where
  "extract_title article =
     (case find_first ''a'' article of None \<Rightarrow> [] | Some link \<Rightarrow> get_text [] link)"

text \<open>
  \<open>_extract_raw_article_url\<close>. Its first two statements,
  \<open>link = article.find("a", href=True)\<close> and \<open>href = link["href"]\<close>, are \<open>link_href\<close>;
  the link found has the attribute, so the subscript raises no \<open>KeyError\<close>.
  The three \<open>return\<close>s are \<open>resolve_href\<close>. \<open>urljoin\<close> is the standard library's
  and is an argument.
\<close>

definition link_href :: "node \<Rightarrow> string option" where
  "link_href article =
     (case find_with_attr ''a'' ''href'' article of
        None \<Rightarrow> None
      | Some link \<Rightarrow> get_attr link ''href'')"

definition resolve_href :: "(string \<Rightarrow> string \<Rightarrow> string) \<Rightarrow> string \<Rightarrow> string" where
  "resolve_href urljoin href =
     (if startswith href ''./'' \<or> startswith href ''/''
        then urljoin GOOGLE_NEWS_BASE (lstrip_chars ''./'' href)
      else if startswith href ''http://'' \<or> startswith href ''https://''
        then href
      else urljoin GOOGLE_NEWS_BASE href)"

definition extract_raw_article_url :: "(string \<Rightarrow> string \<Rightarrow> string) \<Rightarrow> node \<Rightarrow> string option" where
  "extract_raw_article_url urljoin article =
     (case link_href article of
        None \<Rightarrow> None
      | Some href \<Rightarrow> Some (resolve_href urljoin href))"

text \<open>
  \<open>_extract_published_at\<close>. \<open>fuzzy_iso text\<close> stands for
  \<open>date_parser.parse(text, fuzzy=True).isoformat()\<close>, \<open>None\<close> where it raises.
\<close>

definition extract_published_at :: "(string \<Rightarrow> string option) \<Rightarrow> node \<Rightarrow> string option" where
  "extract_published_at fuzzy_iso article =
     (case find_first ''time'' article of
        None \<Rightarrow> None
      | Some time_tag \<Rightarrow>
          (case or_else (get_attr time_tag ''datetime'') None of
             Some datetime_attr \<Rightarrow> Some datetime_attr
           | None \<Rightarrow>
               (let txt = get_text [] time_tag in
                if txt \<noteq> [] then
                  (case fuzzy_iso txt of Some formatted \<Rightarrow> Some formatted | None \<Rightarrow> Some txt)
                else None)))"

fun source_loop :: "node list \<Rightarrow> string option" where
  "source_loop [] = None"
| "source_loop (span # candidates) =
     (let txt = get_text [] span in
      if txt \<noteq> [] \<and> count_words False txt \<le> 5 then Some txt else source_loop candidates)"

definition extract_source :: "node \<Rightarrow> string option" where
  "extract_source article = source_loop (find_all ''span'' article)"

definition extract_image :: "node \<Rightarrow> string option" where
  "extract_image article =
     (case find_first ''img'' article of
        None \<Rightarrow> None
      | Some img \<Rightarrow> or_else (get_attr img ''src'') (get_attr img ''data-src''))"

text \<open>
  \<open>_extract_source_icon\<close>. \<open>img_area\<close> is the body of the \<open>try\<close>:
  \<open>int(w) * int(h)\<close>, \<open>None\<close> where either conversion raises. The loop carries
  \<open>smallest\<close> and \<open>smallest_area\<close> as one optional pair.
\<close>

definition attr_value :: "node \<Rightarrow> string \<Rightarrow> pyval" where
  "attr_value n key = (case get_attr n key of None \<Rightarrow> PNone | Some s \<Rightarrow> PStr s)"

definition img_area :: "node \<Rightarrow> int option" where
  "img_area img =
     (case py_int (attr_value img ''width'') of
        Inl e \<Rightarrow> None
      | Inr w \<Rightarrow> (case py_int (attr_value img ''height'') of Inl e \<Rightarrow> None | Inr h \<Rightarrow> Some (w * h)))"

fun icon_loop :: "(node \<times> int) option \<Rightarrow> node list \<Rightarrow> (node \<times> int) option" where
  "icon_loop smallest [] = smallest"
| "icon_loop smallest (img # imgs) =
     (case img_area img of
        None \<Rightarrow> icon_loop smallest imgs
      | Some area \<Rightarrow>
          (case smallest of
             None \<Rightarrow> icon_loop (Some (img, area)) imgs
           | Some (s, smallest_area) \<Rightarrow>
               if area < smallest_area then icon_loop (Some (img, area)) imgs
               else icon_loop smallest imgs))"

definition extract_source_icon :: "node \<Rightarrow> string option" where
  "extract_source_icon article =
     (let imgs = find_all ''img'' article in
      if imgs = [] then None
      else
        (case icon_loop None imgs of
           None \<Rightarrow> None
         | Some (smallest, area) \<Rightarrow> or_else (get_attr smallest ''src'') (get_attr smallest ''data-src'')))"

definition extract_author :: "node \<Rightarrow> string option" where
  "extract_author article =
     (let txt = get_text '' '' article in
      if txt = [] then None
      else
        (case find_sub txt ''By '' of
           None \<Rightarrow> None
         | Some idx \<Rightarrow>
             (let segment = strip (before_sep ''  '' (drop (idx + 3) txt)) in
              if segment \<noteq> [] \<and> length segment \<le> 80 then Some (''By '' @ segment) else None)))"

section \<open>Network and redirect resolution\<close>

text \<open>
  What a request of the \<open>requests\<close> session gives: a response, or one of the library's
  exceptions. The network is a state \<open>'n\<close> that every request may change; the two
  methods of the session are arguments.
\<close>

datatype request_error =
  ConnectTimeout | ReadTimeout | ConnectionError | TooManyRedirects | InvalidURL | HTTPError int

record response =
  status_code :: int
  resp_url :: string
  is_redirect :: bool
  history :: "string list"
  resp_text :: string

record 'n session =
  session_head :: "'n \<Rightarrow> string \<Rightarrow> (request_error + response) \<times> 'n"
  session_get :: "'n \<Rightarrow> string \<Rightarrow> (request_error + response) \<times> 'n"

text \<open>
  \<open>_get\<close>: the page request of \<open>search\<close>. \<open>raise_for_status\<close> raises on a status from
  400 to 599; nothing is caught here.
\<close>

definition get_page :: "'n session \<Rightarrow> 'n \<Rightarrow> string \<Rightarrow> (request_error + string) \<times> 'n" where
  "get_page sess net u =
     (case session_get sess net u of
        (Inl e, net1) \<Rightarrow> (Inl e, net1)
      | (Inr resp, net1) \<Rightarrow>
          if 400 \<le> status_code resp \<and> status_code resp < 600
            then (Inl (HTTPError (status_code resp)), net1)
          else (Inr (resp_text resp), net1))"

text \<open>
  \<open>_resolve_redirect\<close>. \<open>resolve_redirect_try\<close> is the body of the \<open>try\<close>, where an
  exception of a request ends the body; \<open>resolve_redirect\<close> adds the handler
  \<open>except Exception: return None\<close>. The result type keeps a place (\<open>Inl\<close>) for an
  exception that would leave the function.
\<close>

definition resolve_redirect_try :: "'n session \<Rightarrow> 'n \<Rightarrow> string \<Rightarrow> (request_error + string option) \<times> 'n" where
  "resolve_redirect_try sess net u =
     (case session_head sess net u of
        (Inl e, net1) \<Rightarrow> (Inl e, net1)
      | (Inr resp, net1) \<Rightarrow>
          if is_redirect resp \<or> history resp \<noteq> [] then (Inr (Some (resp_url resp)), net1)
          else if status_code resp \<ge> 400 then
            (case session_get sess net1 u of
               (Inl e, net2) \<Rightarrow> (Inl e, net2)
             | (Inr resp2, net2) \<Rightarrow> (Inr (Some (resp_url resp2)), net2))
          else (Inr (Some (resp_url resp)), net1))"

definition resolve_redirect :: "'n session \<Rightarrow> 'n \<Rightarrow> string \<Rightarrow> (request_error + string option) \<times> 'n" where
  "resolve_redirect sess net u =
     (case resolve_redirect_try sess net u of
        (Inl exc, net1) \<Rightarrow> (Inr None, net1)
      | (Inr r, net1) \<Rightarrow> (Inr r, net1))"

section \<open>The search\<close>

record GoogleNewsArticle =
  googleNewsUrl :: string
  articleUrl :: string
  decodedArticleUrl :: "string option"
  title :: string
  publishedAt :: "string option"
  imageUrl :: "string option"
  source :: "string option"
  sourceIconUrl :: "string option"
  author :: "string option"

definition opt_value :: "string option \<Rightarrow> pyval" where
  "opt_value x = (case x of None \<Rightarrow> PNone | Some s \<Rightarrow> PStr s)"

text \<open>\<open>to_dict\<close>, that is \<open>asdict\<close>: the fields in the order of their declaration.\<close>

definition to_dict :: "GoogleNewsArticle \<Rightarrow> pydict" where
  "to_dict a =
     [(''googleNewsUrl'', PStr (googleNewsUrl a)),
      (''articleUrl'', PStr (articleUrl a)),
      (''decodedArticleUrl'', opt_value (decodedArticleUrl a)),
      (''title'', PStr (title a)),
      (''publishedAt'', opt_value (publishedAt a)),
      (''imageUrl'', opt_value (imageUrl a)),
      (''source'', opt_value (source a)),
      (''sourceIconUrl'', opt_value (sourceIconUrl a)),
      (''author'', opt_value (author a))]"

text \<open>
  The scraper object, with the fields that decide what \<open>search\<close> returns, and the
  library functions the search calls: \<open>urljoin\<close>, \<open>urlencode\<close>, the HTML parser and the
  fuzzy date parser.
\<close>

record scraper =
  language :: string
  region :: string
  decode_articles :: bool

record library =
  urljoin :: "string \<Rightarrow> string \<Rightarrow> string"
  urlencode :: "(string \<times> string) list \<Rightarrow> string"
  parse_html :: "string \<Rightarrow> node"
  fuzzy_iso :: "string \<Rightarrow> string option"

definition build_search_url :: "library \<Rightarrow> scraper \<Rightarrow> string \<Rightarrow> string option \<Rightarrow> string" where
  "build_search_url lib scr query when =
     (let q0 = strip query;
          q = (case when of
                 None \<Rightarrow> q0
               | Some w \<Rightarrow>
                   if w \<noteq> [] \<and> \<not> contains q0 (''when:'' @ w) then q0 @ '' when:'' @ w else q0);
          params = [(''q'', q),
                    (''hl'', language scr @ ''-'' @ region scr),
                    (''gl'', region scr),
                    (''ceid'', region scr @ '':'' @ language scr)]
      in GOOGLE_NEWS_BASE @ ''/search?'' @ urlencode lib params)"

text \<open>
  The loop of \<open>search\<close> over the \<open>article\<close> elements, with the list \<open>articles\<close> it
  appends to. \<open>if not raw_url: continue\<close> skips a card whose URL is \<open>None\<close> or empty;
  the test \<open>len(articles) >= max_items\<close> comes after the append. The pause after a
  resolution (\<open>time.sleep\<close>) changes no result and is left out.
\<close>

fun search_loop :: "library \<Rightarrow> 'n session \<Rightarrow> scraper \<Rightarrow> string \<Rightarrow> int \<Rightarrow> 'n \<Rightarrow>
    GoogleNewsArticle list \<Rightarrow> node list \<Rightarrow> (request_error + GoogleNewsArticle list) \<times> 'n" where
  "search_loop lib sess scr search_url max_items net articles [] = (Inr articles, net)"
| "search_loop lib sess scr search_url max_items net articles (article_tag # tags) =
     (case extract_raw_article_url (urljoin lib) article_tag of
        None \<Rightarrow> search_loop lib sess scr search_url max_items net articles tags
      | Some raw_url \<Rightarrow>
          if raw_url = [] then search_loop lib sess scr search_url max_items net articles tags
          else
            (case (if decode_articles scr then resolve_redirect sess net raw_url
                   else (Inr None, net)) of
               (Inl exc, net1) \<Rightarrow> (Inl exc, net1)
             | (Inr decoded_url, net1) \<Rightarrow>
                 (let item = \<lparr>googleNewsUrl = search_url,
                                articleUrl = raw_url,
                                decodedArticleUrl = decoded_url,
                                title = extract_title article_tag,
                                publishedAt = extract_published_at (fuzzy_iso lib) article_tag,
                                imageUrl = extract_image article_tag,
                                source = extract_source article_tag,
                                sourceIconUrl = extract_source_icon article_tag,
                                author = extract_author article_tag\<rparr>;
                      articles1 = articles @ [item]
                  in if int (length articles1) \<ge> max_items then (Inr articles1, net1)
                     else search_loop lib sess scr search_url max_items net1 articles1 tags)))"

definition search :: "library \<Rightarrow> 'n session \<Rightarrow> scraper \<Rightarrow> 'n \<Rightarrow> string \<Rightarrow> string option \<Rightarrow> int \<Rightarrow>
    (request_error + pydict list) \<times> 'n" where
  "search lib sess scr net query when max_items =
     (let search_url = build_search_url lib scr query when in
      case get_page sess net search_url of
        (Inl e, net1) \<Rightarrow> (Inl e, net1)
      | (Inr html, net1) \<Rightarrow>
          (let soup = parse_html lib html in
           case search_loop lib sess scr search_url max_items net1 [] (find_all ''article'' soup) of
             (Inl e, net2) \<Rightarrow> (Inl e, net2)
           | (Inr articles, net2) \<Rightarrow> (Inr (map to_dict articles), net2)))"

section \<open>JSON export: \<open>exporters.py\<close>\<close>

text \<open>
  \<open>json.dump\<close> with \<open>ensure_ascii=False\<close> on a list of dictionaries. A string is
  written between double quotes; the quote, the backslash and the control characters
  below \<open>0x20\<close> are escaped, every other character is written as it is.
\<close>

definition hex_char :: "nat \<Rightarrow> char" where
  "hex_char d = ''0123456789abcdef'' ! d"

definition escape_char :: "char \<Rightarrow> string" where
  "escape_char c =
     (if c = CHR ''\"'' then [CHR 0x5C, CHR ''\"'']
      else if c = CHR 0x5C then [CHR 0x5C, CHR 0x5C]
      else if c = CHR 0x0A then [CHR 0x5C, CHR ''n'']
      else if c = CHR 0x0D then [CHR 0x5C, CHR ''r'']
      else if c = CHR 0x09 then [CHR 0x5C, CHR ''t'']
      else if c = CHR 0x08 then [CHR 0x5C, CHR ''b'']
      else if c = CHR 0x0C then [CHR 0x5C, CHR ''f'']
      else if (of_char c :: nat) < 32
        then [CHR 0x5C, CHR ''u'', CHR ''0'', CHR ''0'',
              hex_char ((of_char c :: nat) div 16), hex_char ((of_char c :: nat) mod 16)]
      else [c])"

definition json_string :: "string \<Rightarrow> string" where
  "json_string s = CHR ''\"'' # concat (map escape_char s) @ [CHR ''\"'']"

fun json_value :: "pyval \<Rightarrow> string" where
  "json_value PNone = ''null''"
| "json_value (PBool b) = (if b then ''true'' else ''false'')"
| "json_value (PInt i) = str_int i"
| "json_value (PStr s) = json_string s"

text \<open>Compact form, \<open>separators=(",", ":")\<close>.\<close>

definition json_dict_compact :: "pydict \<Rightarrow> string" where
  "json_dict_compact d =
     ''{'' @ join '','' (map (\<lambda>(k, v). json_string k @ '':'' @ json_value v) d) @ ''}''"

definition json_dumps_compact :: "pydict list \<Rightarrow> string" where
  "json_dumps_compact ds = ''['' @ join '','' (map json_dict_compact ds) @ '']''"

text \<open>Indented form, \<open>indent=2\<close>: one item a line, an empty container on one line.\<close>

definition newline_indent :: "nat \<Rightarrow> string" where
  "newline_indent level = CHR 0x0A # replicate (2 * level) CHR '' ''"

definition json_dict_pretty :: "nat \<Rightarrow> pydict \<Rightarrow> string" where
  "json_dict_pretty level d =
     (if d = [] then ''{}''
      else ''{'' @ newline_indent (level + 1)
           @ join ('','' @ newline_indent (level + 1))
               (map (\<lambda>(k, v). json_string k @ '': '' @ json_value v) d)
           @ newline_indent level @ ''}'')"

definition json_dumps_pretty :: "pydict list \<Rightarrow> string" where
  "json_dumps_pretty ds =
     (if ds = [] then ''[]''
      else ''['' @ newline_indent 1
           @ join ('','' @ newline_indent 1) (map (json_dict_pretty 1) ds)
           @ newline_indent 0 @ '']'')"

text \<open>
  The file system: the directories and the regular files with their contents, each
  under its path, a list of components.
\<close>

datatype os_error = NotADirectoryError | IsADirectoryError | FileNotFoundError

record filesystem =
  dirs :: "string list set"
  files :: "string list \<rightharpoonup> string"

definition path_exists :: "filesystem \<Rightarrow> string list \<Rightarrow> bool" where
  "path_exists fs p = (p \<in> dirs fs \<or> files fs p \<noteq> None)"

text \<open>\<open>path.mkdir(parents=True, exist_ok=True)\<close>.\<close>

definition mkdir_parents :: "filesystem \<Rightarrow> string list \<Rightarrow> os_error + filesystem" where
  "mkdir_parents fs p =
     (if list_ex (\<lambda>q. files fs q \<noteq> None) (prefixes p) then Inl NotADirectoryError
      else Inr (fs\<lparr>dirs := dirs fs \<union> set (prefixes p)\<rparr>))"

definition ensure_parent_dir :: "filesystem \<Rightarrow> string list \<Rightarrow> os_error + filesystem" where
  "ensure_parent_dir fs path =
     (if \<not> path_exists fs (butlast path) then mkdir_parents fs (butlast path) else Inr fs)"

text \<open>
  \<open>path.open("w")\<close> followed by the write and the close: the file is created or
  truncated and holds what was written.
\<close>

definition write_text :: "filesystem \<Rightarrow> string list \<Rightarrow> string \<Rightarrow> os_error + filesystem" where
  "write_text fs path content =
     (if path \<in> dirs fs then Inl IsADirectoryError
      else if files fs (butlast path) \<noteq> None then Inl NotADirectoryError
      else if butlast path \<notin> dirs fs then Inl FileNotFoundError
      else Inr (fs\<lparr>files := (files fs)(path \<mapsto> content)\<rparr>))"

definition export_to_json :: "filesystem \<Rightarrow> pydict list \<Rightarrow> string list \<Rightarrow> bool \<Rightarrow> os_error + filesystem" where
  "export_to_json fs articles output_path pretty =
     (case ensure_parent_dir fs output_path of
        Inl e \<Rightarrow> Inl e
      | Inr fs1 \<Rightarrow>
          write_text fs1 output_path
            (if pretty then json_dumps_pretty articles else json_dumps_compact articles))"

subsection \<open>Reading the file back\<close>

text \<open>
  The reader of the round trip, \<open>json.load\<close>, on the documents the exporter writes:
  an array of objects whose values are strings, integers, \<open>true\<close>, \<open>false\<close> or
  \<open>null\<close>, with optional whitespace between the tokens. Everything else is rejected
  (\<open>None\<close>), as is a \<open>\u\<close> escape of a character outside the model's characters. An
  unescaped control character inside a string is an error, as in \<open>json\<close>'s strict mode.
\<close>

definition is_json_ws :: "char \<Rightarrow> bool" where
  "is_json_ws c = (c = CHR '' '' \<or> c = CHR 0x09 \<or> c = CHR 0x0A \<or> c = CHR 0x0D)"

definition skip_ws :: "string \<Rightarrow> string" where
  "skip_ws s = dropWhile is_json_ws s"

definition hex_val :: "char \<Rightarrow> nat option" where
  "hex_val c =
     (let n = of_char c :: nat in
      if 48 \<le> n \<and> n \<le> 57 then Some (n - 48)
      else if 97 \<le> n \<and> n \<le> 102 then Some (n - 87)
      else if 65 \<le> n \<and> n \<le> 70 then Some (n - 55)
      else None)"

definition hex4 :: "string \<Rightarrow> nat option" where
  "hex4 s =
     (case map hex_val (take 4 s) of
        [Some a, Some b, Some c, Some d] \<Rightarrow> Some (((a * 16 + b) * 16 + c) * 16 + d)
      | _ \<Rightarrow> None)"

definition unescape :: "char \<Rightarrow> char option" where
  "unescape e =
     (if e = CHR ''\"'' then Some (CHR ''\"'')
      else if e = CHR 0x5C then Some (CHR 0x5C)
      else if e = CHR ''/'' then Some (CHR ''/'')
      else if e = CHR ''n'' then Some (CHR 0x0A)
      else if e = CHR ''r'' then Some (CHR 0x0D)
      else if e = CHR ''t'' then Some (CHR 0x09)
      else if e = CHR ''b'' then Some (CHR 0x08)
      else if e = CHR ''f'' then Some (CHR 0x0C)
      else None)"

definition cons_result :: "'a \<Rightarrow> ('a list \<times> string) option \<Rightarrow> ('a list \<times> string) option" where
  "cons_result x r = (case r of None \<Rightarrow> None | Some (xs, rest) \<Rightarrow> Some (x # xs, rest))"

text \<open>The characters of a string and what follows it, read from after the opening quote.\<close>

fun scan_string :: "string \<Rightarrow> (string \<times> string) option" where
  "scan_string [] = None"
| "scan_string (c # cs) =
     (if c = CHR ''\"'' then Some ([], cs)
      else if c = CHR 0x5C then
        (case cs of
           [] \<Rightarrow> None
         | e # cs' \<Rightarrow>
             if e = CHR ''u'' then
               (case hex4 cs' of
                  None \<Rightarrow> None
                | Some n \<Rightarrow> if n < 256 then cons_result (char_of n) (scan_string (drop 4 cs')) else None)
             else
               (case unescape e of
                  None \<Rightarrow> None
                | Some ch \<Rightarrow> cons_result ch (scan_string cs')))
      else if (of_char c :: nat) < 32 then None
      else cons_result c (scan_string cs))"

text \<open>
  An integer literal: an optional minus sign and digits without a leading zero. A
  fraction or an exponent would make the number a float, which the model does not have.
\<close>

definition parse_int :: "string \<Rightarrow> (pyval \<times> string) option" where
  "parse_int s =
     (let neg = (s \<noteq> [] \<and> hd s = CHR ''-'');
          body = (if neg then tl s else s);
          ds = takeWhile is_digit body;
          rest = dropWhile is_digit body
      in if ds = [] \<or> (hd ds = CHR ''0'' \<and> length ds > 1) then None
         else if rest \<noteq> [] \<and> hd rest \<in> set ''.eE'' then None
         else (case digits_val 0 False ds of
                 None \<Rightarrow> None
               | Some n \<Rightarrow> Some (PInt (if neg then - n else n), rest)))"

definition parse_value :: "string \<Rightarrow> (pyval \<times> string) option" where
  "parse_value s =
     (if startswith s ''null'' then Some (PNone, drop 4 s)
      else if startswith s ''true'' then Some (PBool True, drop 4 s)
      else if startswith s ''false'' then Some (PBool False, drop 5 s)
      else if startswith s ''\"'' then
        (case scan_string (tl s) of None \<Rightarrow> None | Some (str, rest) \<Rightarrow> Some (PStr str, rest))
      else parse_int s)"

text \<open>
  The members of an object after its opening brace, and the objects of an array after
  its opening bracket. Each round consumes input, so the test on the lengths always
  holds; it makes the recursion terminate by construction.
\<close>

function parse_members :: "string \<Rightarrow> ((string \<times> pyval) list \<times> string) option" where
  "parse_members s =
     (let s1 = skip_ws s in
      if \<not> startswith s1 ''\"'' then None
      else
        (case scan_string (tl s1) of
           None \<Rightarrow> None
         | Some (k, r1) \<Rightarrow>
             (let r2 = skip_ws r1 in
              if \<not> startswith r2 '':'' then None
              else
                (case parse_value (skip_ws (tl r2)) of
                   None \<Rightarrow> None
                 | Some (v, r3) \<Rightarrow>
                     (let r4 = skip_ws r3 in
                      if startswith r4 ''}'' then Some ([(k, v)], tl r4)
                      else if startswith r4 '','' \<and> length (tl r4) < length s
                        then cons_result (k, v) (parse_members (tl r4))
                      else None)))))"
  by pat_completeness auto
termination
  by (relation "measure length") auto

declare parse_members.simps [simp del]

text \<open>
  The dictionary built from the members read: a key read again replaces the value and
  keeps its place.
\<close>

definition dict_of_members :: "(string \<times> pyval) list \<Rightarrow> pydict" where
  "dict_of_members kvs = foldl (\<lambda>d (k, v). AList.update k v d) [] kvs"

definition parse_object :: "string \<Rightarrow> (pydict \<times> string) option" where
  "parse_object s =
     (let s1 = skip_ws s in
      if \<not> startswith s1 ''{'' then None
      else if startswith (skip_ws (tl s1)) ''}'' then Some ([], tl (skip_ws (tl s1)))
      else
        (case parse_members (tl s1) of
           None \<Rightarrow> None
         | Some (kvs, rest) \<Rightarrow> Some (dict_of_members kvs, rest)))"

function parse_objects :: "string \<Rightarrow> (pydict list \<times> string) option" where
  "parse_objects s =
     (case parse_object s of
        None \<Rightarrow> None
      | Some (d, r1) \<Rightarrow>
          (let r2 = skip_ws r1 in
           if startswith r2 '']'' then Some ([d], tl r2)
           else if startswith r2 '','' \<and> length (tl r2) < length s
             then cons_result d (parse_objects (tl r2))
           else None))"
  by pat_completeness auto
termination
  by (relation "measure length") auto

declare parse_objects.simps [simp del]

definition json_loads :: "string \<Rightarrow> pydict list option" where
  "json_loads s =
     (let s1 = skip_ws s in
      if \<not> startswith s1 ''['' then None
      else if startswith (skip_ws (tl s1)) '']''
        then (if skip_ws (tl (skip_ws (tl s1))) = [] then Some [] else None)
      else
        (case parse_objects (tl s1) of
           None \<Rightarrow> None
         | Some (ds, rest) \<Rightarrow> if skip_ws rest = [] then Some ds else None))"

text \<open>Opening the file and loading it; a path that is no regular file gives \<open>None\<close>.\<close>

definition load_json_file :: "filesystem \<Rightarrow> string list \<Rightarrow> pydict list option" where
  "load_json_file fs path = (case files fs path of None \<Rightarrow> None | Some content \<Rightarrow> json_loads content)"

section \<open>Properties of the time window\<close>

lemma str_int_2: "str_int 2 = ''2''"
  by (simp add: str_int_def str_nat.simps digit_char_def)

text \<open>
  C5. \<open>build_time_range\<close> returns the token of the first positive argument in the
  order hours, days, years: the decimal number followed by the letter of that unit
  (\<open>h\<close>, \<open>d\<close>, \<open>y\<close>). An argument that is absent or not positive falls through to the
  next one, and the result is absent when none is positive. With \<open>hours = 2\<close> and
  \<open>days = 5\<close> the result is \<open>2h\<close>.
\<close>

theorem build_time_range_priority:
  "(hours = Some h \<and> 0 < h \<longrightarrow> build_time_range hours days years = Some (str_int h @ ''h''))
   \<and> ((case hours of None \<Rightarrow> True | Some n \<Rightarrow> n \<le> 0) \<and> days = Some d \<and> 0 < d
        \<longrightarrow> build_time_range hours days years = Some (str_int d @ ''d''))
   \<and> ((case hours of None \<Rightarrow> True | Some n \<Rightarrow> n \<le> 0) \<and> (case days of None \<Rightarrow> True | Some n \<Rightarrow> n \<le> 0)
        \<and> years = Some y \<and> 0 < y
        \<longrightarrow> build_time_range hours days years = Some (str_int y @ ''y''))
   \<and> ((case hours of None \<Rightarrow> True | Some n \<Rightarrow> n \<le> 0) \<and> (case days of None \<Rightarrow> True | Some n \<Rightarrow> n \<le> 0)
        \<and> (case years of None \<Rightarrow> True | Some n \<Rightarrow> n \<le> 0)
        \<longrightarrow> build_time_range hours days years = None)
   \<and> build_time_range (Some 2) (Some 5) years = Some ''2h''"
  by (auto simp add: build_time_range_def str_int_2 split: option.splits)

theorem build_time_range_priority_witness:
  "build_time_range (Some 2) (Some 5) None = Some ''2h''
   \<and> build_time_range (Some 0) (Some 5) (Some 1) = Some ''5d''
   \<and> build_time_range None (Some (- 1)) (Some 3) = Some ''3y''
   \<and> build_time_range (Some 0) None (Some (- 4)) = None"
  using build_time_range_priority [of "Some 2" 2 "Some 5" None 5 1]
    build_time_range_priority [of "Some 0" 1 "Some 5" "Some 1" 5 1]
    build_time_range_priority [of None 1 "Some (- 1)" "Some 3" 1 3]
    build_time_range_priority [of "Some 0" 1 None "Some (- 4)" 1 1]
  by (simp add: str_int_def str_nat.simps digit_char_def)

text \<open>
  C2. \<open>parse_since_from_relative_config\<close> tests each entry for truth, not for being
  positive: with \<open>hours = -3\<close> it returns the instant three hours after \<open>now\<close>, where
  the claim has the result absent.
\<close>

theorem parse_since_negative_hours:
  "parse_since_from_relative_config now [(''hours'', PInt (- 3))] = Inr (Some (now + 10800000000))"
  by (simp add: parse_since_from_relative_config_def dict_get_def timedelta_hours_def)

text \<open>
  On integer entries that are positive or zero the function follows the priority of
  \<open>build_time_range\<close>: a positive \<open>hours\<close> wins over \<open>days\<close>, which wins over
  \<open>years\<close>; a year counts 365 days; the result is absent when every entry tests false.
\<close>

theorem parse_since_positive_priority:
  "(dict_get cfg ''hours'' = PInt h \<and> 0 < h
      \<longrightarrow> parse_since_from_relative_config now cfg = Inr (Some (now - h * 3600000000)))
   \<and> (\<not> truthy (dict_get cfg ''hours'') \<and> dict_get cfg ''days'' = PInt d \<and> 0 < d
      \<longrightarrow> parse_since_from_relative_config now cfg = Inr (Some (now - d * 86400000000)))
   \<and> (\<not> truthy (dict_get cfg ''hours'') \<and> \<not> truthy (dict_get cfg ''days'')
        \<and> dict_get cfg ''years'' = PInt y \<and> 0 < y
      \<longrightarrow> parse_since_from_relative_config now cfg = Inr (Some (now - y * 365 * 86400000000)))
   \<and> (\<not> truthy (dict_get cfg ''hours'') \<and> \<not> truthy (dict_get cfg ''days'')
        \<and> \<not> truthy (dict_get cfg ''years'')
      \<longrightarrow> parse_since_from_relative_config now cfg = Inr None)"
  by (simp add: parse_since_from_relative_config_def timedelta_hours_def timedelta_days_def Let_def)

theorem parse_since_positive_priority_witness:
  "parse_since_from_relative_config 1704067200000000 [(''hours'', PInt 2), (''days'', PInt 5)]
     = Inr (Some 1704060000000000)
   \<and> parse_since_from_relative_config 1704067200000000 [(''hours'', PInt 0), (''days'', PInt 5)]
     = Inr (Some 1703635200000000)
   \<and> parse_since_from_relative_config 1704067200000000 [(''years'', PInt 1)]
     = Inr (Some 1672531200000000)
   \<and> parse_since_from_relative_config 1704067200000000 [(''hours'', PInt 0), (''days'', PNone)]
     = Inr None"
  using parse_since_positive_priority [of "[(''hours'', PInt 2), (''days'', PInt 5)]" 2 1704067200000000 1 1]
    parse_since_positive_priority [of "[(''hours'', PInt 0), (''days'', PInt 5)]" 1 1704067200000000 5 1]
    parse_since_positive_priority [of "[(''years'', PInt 1)]" 1 1704067200000000 1 1]
    parse_since_positive_priority [of "[(''hours'', PInt 0), (''days'', PNone)]" 1 1704067200000000 1 1]
  by (simp add: dict_get_def)

section \<open>Properties of the date filter\<close>

lemma filter_loop_eq:
  "filter_loop date_parse since filtered articles =
     filtered @ filter (\<lambda>art. \<not> truthy (dict_get art ''publishedAt'')
        \<or> (case date_parse (py_str (dict_get art ''publishedAt'')) of
              None \<Rightarrow> True
            | Some p \<Rightarrow> (case to_utc p of None \<Rightarrow> True | Some parsed_dt \<Rightarrow> since \<le> parsed_dt))) articles"
  by (induction articles arbitrary: filtered) (auto simp add: Let_def split: option.splits)

lemma filter_by_membership:
  "filter (\<lambda>x. x \<in> set (filter P xs)) xs = filter P xs"
  by (rule filter_cong) auto

text \<open>
  C3, as the claim states it, fails: a record whose \<open>publishedAt\<close> parses is kept also
  when its instant lies before the cutoff, if the conversion to UTC leaves the range of
  \<open>datetime\<close>. The timestamp \<open>0001-01-01T00:00:00+05:00\<close> parses to the first instant
  of year 1 with an offset of five hours; \<open>astimezone\<close> raises inside the \<open>try\<close> and
  the record is kept, although its instant is before the cutoff.
\<close>

theorem filter_keeps_year_one_counterexample:
  "filter_articles_by_published_at
     (\<lambda>s. if s = ''0001-01-01T00:00:00+05:00''
            then Some \<lparr>wall = - 62135596800000000, utcoffset = Some 18000000000\<rparr> else None)
     [[(''title'', PStr ''a''), (''publishedAt'', PStr ''0001-01-01T00:00:00+05:00'')]]
     1704067200000000
   = [[(''title'', PStr ''a''), (''publishedAt'', PStr ''0001-01-01T00:00:00+05:00'')]]
   \<and> (- 62135596800000000 :: int) - 18000000000 < 1704067200000000"
  by (simp add: filter_articles_by_published_at_def dict_get_def to_utc_def DATETIME_MIN_def)

text \<open>
  C3, amended. \<open>filter_articles_by_published_at\<close> keeps every record whose
  \<open>publishedAt\<close> is absent, every record whose \<open>publishedAt\<close> the parser rejects, and
  every record whose parsed timestamp carries an offset and leaves the range of
  \<open>datetime\<close> (year 1 to year 9999) when converted to UTC. A record whose
  \<open>publishedAt\<close> parses and converts is kept exactly when its instant, the wall-clock
  reading taken as UTC for a naive timestamp and shifted by the offset otherwise, is at
  or after the cutoff. The records kept stand in the order of the input.
\<close>

theorem filter_articles_by_published_at_keeps:
  fixes date_parse :: "string \<Rightarrow> parsed_datetime option"
  defines "kept \<equiv> (\<lambda>articles since. filter_articles_by_published_at date_parse articles since)"
  shows
  "(art \<in> set articles \<and> dict_get art ''publishedAt'' = PNone \<longrightarrow> art \<in> set (kept articles since))
   \<and> (art \<in> set articles \<and> truthy (dict_get art ''publishedAt'')
        \<and> date_parse (py_str (dict_get art ''publishedAt'')) = None
        \<longrightarrow> art \<in> set (kept articles since))
   \<and> (art \<in> set articles \<and> truthy (dict_get art ''publishedAt'')
        \<and> date_parse (py_str (dict_get art ''publishedAt'')) = Some p
        \<and> utcoffset p = Some off \<and> (wall p - off < DATETIME_MIN \<or> DATETIME_MAX < wall p - off)
        \<longrightarrow> art \<in> set (kept articles since))
   \<and> (art \<in> set articles \<and> truthy (dict_get art ''publishedAt'')
        \<and> date_parse (py_str (dict_get art ''publishedAt'')) = Some p
        \<and> utcoffset p = None
        \<longrightarrow> (art \<in> set (kept articles since) \<longleftrightarrow> since \<le> wall p))
   \<and> (art \<in> set articles \<and> truthy (dict_get art ''publishedAt'')
        \<and> date_parse (py_str (dict_get art ''publishedAt'')) = Some p
        \<and> utcoffset p = Some off \<and> DATETIME_MIN \<le> wall p - off \<and> wall p - off \<le> DATETIME_MAX
        \<longrightarrow> (art \<in> set (kept articles since) \<longleftrightarrow> since \<le> wall p - off))
   \<and> kept articles since = filter (\<lambda>a. a \<in> set (kept articles since)) articles
   \<and> subseq (kept articles since) articles"
proof -
  let ?P = "\<lambda>art. \<not> truthy (dict_get art ''publishedAt'')
        \<or> (case date_parse (py_str (dict_get art ''publishedAt'')) of
              None \<Rightarrow> True
            | Some p \<Rightarrow> (case to_utc p of None \<Rightarrow> True | Some parsed_dt \<Rightarrow> since \<le> parsed_dt))"
  have eq: "kept articles since = filter ?P articles"
    by (simp add: kept_def filter_articles_by_published_at_def filter_loop_eq)
  have mem: "a \<in> set (kept articles since) \<longleftrightarrow> a \<in> set articles \<and> ?P a" for a
    by (simp add: eq)
  have order: "kept articles since = filter (\<lambda>a. a \<in> set (kept articles since)) articles"
    unfolding eq by (rule filter_by_membership [symmetric])
  have sub: "subseq (kept articles since) articles"
    by (simp add: eq)
  show ?thesis
    using order sub by (auto simp add: mem to_utc_def)
qed

theorem filter_articles_by_published_at_keeps_witness:
  "filter_articles_by_published_at
     (\<lambda>s. if s = ''2024-01-01T00:00:00'' then Some \<lparr>wall = 1704067200000000, utcoffset = None\<rparr>
          else if s = ''2024-01-01T00:59:59+01:00''
            then Some \<lparr>wall = 1704070799000000, utcoffset = Some 3600000000\<rparr>
          else if s = ''9999-12-31T23:59:59-05:00''
            then Some \<lparr>wall = 253402300799000000, utcoffset = Some (- 18000000000)\<rparr>
          else None)
     [[(''title'', PStr ''a''), (''publishedAt'', PNone)],
      [(''title'', PStr ''b''), (''publishedAt'', PStr ''not-a-date'')],
      [(''title'', PStr ''c''), (''publishedAt'', PStr ''2024-01-01T00:59:59+01:00'')],
      [(''title'', PStr ''d''), (''publishedAt'', PStr ''2024-01-01T00:00:00'')],
      [(''title'', PStr ''e''), (''publishedAt'', PStr ''9999-12-31T23:59:59-05:00'')]]
     1704067200000000
   = [[(''title'', PStr ''a''), (''publishedAt'', PNone)],
      [(''title'', PStr ''b''), (''publishedAt'', PStr ''not-a-date'')],
      [(''title'', PStr ''d''), (''publishedAt'', PStr ''2024-01-01T00:00:00'')],
      [(''title'', PStr ''e''), (''publishedAt'', PStr ''9999-12-31T23:59:59-05:00'')]]"
  using filter_articles_by_published_at_keeps
    [of "[(''title'', PStr ''c''), (''publishedAt'', PStr ''2024-01-01T00:59:59+01:00'')]"
        "[[(''title'', PStr ''a''), (''publishedAt'', PNone)],
      [(''title'', PStr ''b''), (''publishedAt'', PStr ''not-a-date'')],
      [(''title'', PStr ''c''), (''publishedAt'', PStr ''2024-01-01T00:59:59+01:00'')],
      [(''title'', PStr ''d''), (''publishedAt'', PStr ''2024-01-01T00:00:00'')],
      [(''title'', PStr ''e''), (''publishedAt'', PStr ''9999-12-31T23:59:59-05:00'')]]"
        "(\<lambda>s. if s = ''2024-01-01T00:00:00'' then Some \<lparr>wall = 1704067200000000, utcoffset = None\<rparr>
          else if s = ''2024-01-01T00:59:59+01:00''
            then Some \<lparr>wall = 1704070799000000, utcoffset = Some 3600000000\<rparr>
          else if s = ''9999-12-31T23:59:59-05:00''
            then Some \<lparr>wall = 253402300799000000, utcoffset = Some (- 18000000000)\<rparr>
          else None)"
        1704067200000000
        "\<lparr>wall = 1704070799000000, utcoffset = Some 3600000000\<rparr>"
        3600000000]
  by (simp add: filter_articles_by_published_at_def dict_get_def to_utc_def DATETIME_MIN_def DATETIME_MAX_def)

text \<open>
  C9. A record whose \<open>publishedAt\<close> is the empty string, or any other value that tests
  false, is retained like one whose \<open>publishedAt\<close> is absent: it stays at its place
  whatever the parser would return and whatever the cutoff is.
\<close>

theorem falsy_published_at_retained:
  "\<not> truthy (dict_get art ''publishedAt'') \<Longrightarrow>
     filter_articles_by_published_at date_parse (before @ art # after) since =
       filter_articles_by_published_at date_parse before since
         @ art # filter_articles_by_published_at date_parse after since"
  by (simp add: filter_articles_by_published_at_def filter_loop_eq)

theorem falsy_published_at_retained_witness:
  "\<not> truthy (dict_get [(''publishedAt'', PStr '''')] ''publishedAt'')
   \<and> filter_articles_by_published_at (\<lambda>s. Some \<lparr>wall = 0, utcoffset = None\<rparr>)
       [[(''publishedAt'', PStr ''1970-01-01T00:00:00'')], [(''publishedAt'', PStr '''')]] 1
     = [[(''publishedAt'', PStr '''')]]"
proof -
  have h: "\<not> truthy (dict_get [(''publishedAt'', PStr '''')] ''publishedAt'')"
    by (simp add: dict_get_def)
  show ?thesis
    using h falsy_published_at_retained [OF h, of "\<lambda>s. Some \<lparr>wall = 0, utcoffset = None\<rparr>"
        "[[(''publishedAt'', PStr ''1970-01-01T00:00:00'')]]" "[]" 1]
    by (simp add: filter_articles_by_published_at_def dict_get_def to_utc_def)
qed

section \<open>Properties of redirect resolution\<close>

lemma resolve_redirect_returns:
  "\<exists>r net'. resolve_redirect sess net u = (Inr r, net')"
  by (simp add: resolve_redirect_def split: prod.splits sum.splits)

lemma search_loop_returns:
  "\<exists>arts net'. search_loop lib sess scr search_url max_items net articles tags = (Inr arts, net')"
proof (induction tags arbitrary: net articles)
  case Nil
  show ?case by simp
next
  case (Cons article_tag tags)
  show ?case
  proof (cases "extract_raw_article_url (urljoin lib) article_tag")
    case None
    then show ?thesis using Cons.IH by simp
  next
    case (Some raw_url)
    show ?thesis
    proof (cases "raw_url = []")
      case True
      then show ?thesis using Some Cons.IH by simp
    next
      case False
      obtain r net1 where r: "resolve_redirect sess net raw_url = (Inr r, net1)"
        using resolve_redirect_returns [of sess net raw_url] by blast
      show ?thesis
        using Some False r Cons.IH by (simp add: Let_def)
    qed
  qed
qed

lemma search_loop_appends:
  fixes lib :: library and search_url :: string and scr :: scraper
  defines "has_url \<equiv> (\<lambda>article_tag.
      case extract_raw_article_url (urljoin lib) article_tag of None \<Rightarrow> False | Some raw_url \<Rightarrow> raw_url \<noteq> [])"
    and "built_from \<equiv> (\<lambda>item article_tag.
      googleNewsUrl item = search_url
      \<and> extract_raw_article_url (urljoin lib) article_tag = Some (articleUrl item)
      \<and> (decode_articles scr \<or> decodedArticleUrl item = None)
      \<and> title item = extract_title article_tag
      \<and> publishedAt item = extract_published_at (fuzzy_iso lib) article_tag
      \<and> imageUrl item = extract_image article_tag
      \<and> source item = extract_source article_tag
      \<and> sourceIconUrl item = extract_source_icon article_tag
      \<and> author item = extract_author article_tag)"
  shows "\<exists>new net'. search_loop lib sess scr search_url max_items net articles tags = (Inr (articles @ new), net')
     \<and> list_all2 built_from new
          (take (max 1 (nat (max_items - int (length articles)))) (filter has_url tags))"
proof (induction tags arbitrary: net articles)
  case Nil
  show ?case by simp
next
  case (Cons article_tag tags)
  show ?case
  proof (cases "has_url article_tag")
    case False
    then have "search_loop lib sess scr search_url max_items net articles (article_tag # tags)
        = search_loop lib sess scr search_url max_items net articles tags"
      by (simp add: has_url_def split: option.splits)
    then show ?thesis using Cons.IH [of net articles] False by simp
  next
    case True
    then obtain raw_url where raw: "extract_raw_article_url (urljoin lib) article_tag = Some raw_url"
      and ne: "raw_url \<noteq> []"
      by (auto simp add: has_url_def split: option.splits)
    obtain decoded_url net1 where
      dec: "(if decode_articles scr then resolve_redirect sess net raw_url else (Inr None, net))
             = (Inr decoded_url, net1)"
      using resolve_redirect_returns [of sess net raw_url] by (cases "decode_articles scr") auto
    have dec_none: "decode_articles scr \<or> decoded_url = None"
      using dec by (cases "decode_articles scr") auto
    define item where "item = \<lparr>googleNewsUrl = search_url,
                                articleUrl = raw_url,
                                decodedArticleUrl = decoded_url,
                                title = extract_title article_tag,
                                publishedAt = extract_published_at (fuzzy_iso lib) article_tag,
                                imageUrl = extract_image article_tag,
                                source = extract_source article_tag,
                                sourceIconUrl = extract_source_icon article_tag,
                                author = extract_author article_tag\<rparr>"
    have built: "built_from item article_tag"
      using dec_none by (simp add: built_from_def item_def raw)
    show ?thesis
    proof (cases "int (length (articles @ [item])) \<ge> max_items")
      case stop: True
      have run: "search_loop lib sess scr search_url max_items net articles (article_tag # tags)
          = (Inr (articles @ [item]), net1)"
        using raw ne dec stop by (simp add: item_def Let_def)
      have "max 1 (nat (max_items - int (length articles))) = 1"
        using stop by simp
      then have "take (max 1 (nat (max_items - int (length articles))))
          (filter has_url (article_tag # tags)) = [article_tag]"
        using True by simp
      then show ?thesis using run built by simp
    next
      case go: False
      have run: "search_loop lib sess scr search_url max_items net articles (article_tag # tags)
          = search_loop lib sess scr search_url max_items net1 (articles @ [item]) tags"
        using raw ne dec go by (simp add: item_def Let_def)
      from Cons.IH [of net1 "articles @ [item]"] obtain new net' where
        1: "search_loop lib sess scr search_url max_items net1 (articles @ [item]) tags
              = (Inr ((articles @ [item]) @ new), net')"
        and 2: "list_all2 built_from new
          (take (max 1 (nat (max_items - int (length (articles @ [item]))))) (filter has_url tags))"
        by blast
      have n: "max 1 (nat (max_items - int (length articles)))
          = Suc (max 1 (nat (max_items - int (length (articles @ [item])))))"
        using go by simp
      have "list_all2 built_from (item # new)
          (take (max 1 (nat (max_items - int (length articles)))) (filter has_url (article_tag # tags)))"
        unfolding n using True built 2 by simp
      then show ?thesis using run 1 by auto
    qed
  qed
qed

lemma search_loop_first_absent:
  assumes raw: "extract_raw_article_url (urljoin lib) article_tag = Some raw_url" and ne: "raw_url \<noteq> []"
    and dec: "decode_articles scr" and fail: "fst (resolve_redirect sess net raw_url) = Inr None"
  shows "\<exists>item rest net'. search_loop lib sess scr search_url max_items net [] (article_tag # tags)
            = (Inr (item # rest), net')
          \<and> articleUrl item = raw_url \<and> decodedArticleUrl item = None"
proof -
  obtain net1 where r: "resolve_redirect sess net raw_url = (Inr None, net1)"
    using fail by (cases "resolve_redirect sess net raw_url") simp
  define item where "item = \<lparr>googleNewsUrl = search_url,
                                articleUrl = raw_url,
                                decodedArticleUrl = None,
                                title = extract_title article_tag,
                                publishedAt = extract_published_at (fuzzy_iso lib) article_tag,
                                imageUrl = extract_image article_tag,
                                source = extract_source article_tag,
                                sourceIconUrl = extract_source_icon article_tag,
                                author = extract_author article_tag\<rparr>"
  show ?thesis
  proof (cases "int (length [item]) \<ge> max_items")
    case True
    then have "search_loop lib sess scr search_url max_items net [] (article_tag # tags) = (Inr [item], net1)"
      using raw ne dec r by (simp add: item_def Let_def)
    then show ?thesis by (simp add: item_def)
  next
    case False
    then have run: "search_loop lib sess scr search_url max_items net [] (article_tag # tags)
        = search_loop lib sess scr search_url max_items net1 [item] tags"
      using raw ne dec r by (simp add: item_def Let_def)
    from search_loop_appends [of lib sess scr search_url max_items net1 "[item]" tags]
    obtain new net' where "search_loop lib sess scr search_url max_items net1 [item] tags
        = (Inr ([item] @ new), net')" by blast
    then show ?thesis using run by (simp add: item_def)
  qed
qed

text \<open>
  C7. \<open>_resolve_redirect\<close> always returns: no exception of a request leaves it. When
  the \<open>HEAD\<close> request raises, and when the \<open>GET\<close> request that follows a \<open>HEAD\<close>
  answer of status 400 or more raises, it returns \<open>None\<close>. The loop of \<open>search\<close>
  therefore always runs to its end and returns its records, and a card whose
  resolution failed still gives a record, with \<open>decodedArticleUrl\<close> absent.
\<close>

theorem resolve_redirect_catches_failures:
  "(\<exists>r net'. resolve_redirect sess net u = (Inr r, net'))
   \<and> (fst (session_head sess net u) = Inl e \<longrightarrow> fst (resolve_redirect sess net u) = Inr None)
   \<and> (session_head sess net u = (Inr resp, net_after) \<and> \<not> is_redirect resp \<and> history resp = []
        \<and> status_code resp \<ge> 400 \<and> fst (session_get sess net_after u) = Inl e
        \<longrightarrow> fst (resolve_redirect sess net u) = Inr None)
   \<and> (\<exists>arts net'. search_loop lib sess scr search_url max_items net articles tags = (Inr arts, net'))
   \<and> (extract_raw_article_url (urljoin lib) article_tag = Some u \<and> u \<noteq> [] \<and> decode_articles scr
        \<and> fst (resolve_redirect sess net u) = Inr None
        \<longrightarrow> (\<exists>item rest net'. search_loop lib sess scr search_url max_items net [] (article_tag # tags)
                  = (Inr (item # rest), net')
               \<and> articleUrl item = u \<and> decodedArticleUrl item = None))"
proof -
  have a: "\<exists>r net'. resolve_redirect sess net u = (Inr r, net')"
    by (rule resolve_redirect_returns)
  have b: "fst (session_head sess net u) = Inl e \<longrightarrow> fst (resolve_redirect sess net u) = Inr None"
    by (cases "session_head sess net u") (simp add: resolve_redirect_def resolve_redirect_try_def)
  have c: "session_head sess net u = (Inr resp, net_after) \<and> \<not> is_redirect resp \<and> history resp = []
        \<and> status_code resp \<ge> 400 \<and> fst (session_get sess net_after u) = Inl e
        \<longrightarrow> fst (resolve_redirect sess net u) = Inr None"
    by (cases "session_get sess net_after u") (simp add: resolve_redirect_def resolve_redirect_try_def)
  have d: "\<exists>arts net'. search_loop lib sess scr search_url max_items net articles tags = (Inr arts, net')"
    by (rule search_loop_returns)
  have e: "extract_raw_article_url (urljoin lib) article_tag = Some u \<and> u \<noteq> [] \<and> decode_articles scr
        \<and> fst (resolve_redirect sess net u) = Inr None
        \<longrightarrow> (\<exists>item rest net'. search_loop lib sess scr search_url max_items net [] (article_tag # tags)
                  = (Inr (item # rest), net')
               \<and> articleUrl item = u \<and> decodedArticleUrl item = None)"
    using search_loop_first_absent [of lib article_tag u scr sess net search_url max_items tags] by blast
  show ?thesis using a b c d e by blast
qed

theorem resolve_redirect_catches_failures_witness:
  "fst (session_head \<lparr>session_head = (\<lambda>(n::nat) u. (Inl ConnectTimeout, Suc n)),
                       session_get = (\<lambda>n u. (Inl ConnectionError, Suc n))\<rparr> 0 ''https://example.com/a'')
     = Inl ConnectTimeout
   \<and> fst (resolve_redirect \<lparr>session_head = (\<lambda>(n::nat) u. (Inl ConnectTimeout, Suc n)),
                       session_get = (\<lambda>n u. (Inl ConnectionError, Suc n))\<rparr> 0 ''https://example.com/a'')
     = Inr None
   \<and> fst (resolve_redirect
       \<lparr>session_head = (\<lambda>(n::nat) u. (Inr \<lparr>status_code = 405, resp_url = u, is_redirect = False,
                                              history = [], resp_text = []\<rparr>, Suc n)),
        session_get = (\<lambda>n u. (Inl ConnectionError, Suc n))\<rparr> 0 ''https://example.com/a'')
     = Inr None
   \<and> (\<forall>lib. \<exists>item rest net'.
        search_loop lib \<lparr>session_head = (\<lambda>(n::nat) u. (Inl ConnectTimeout, Suc n)),
                       session_get = (\<lambda>n u. (Inl ConnectionError, Suc n))\<rparr>
          \<lparr>language = ''en'', region = ''US'', decode_articles = True\<rparr> ''search'' 50 0 []
          [Element ''article'' [] [Element ''a'' [(''href'', ''https://example.com/a'')] [Text ''Title'']]]
          = (Inr (item # rest), net')
        \<and> articleUrl item = ''https://example.com/a'' \<and> decodedArticleUrl item = None)"
proof -
  let ?s0 = "\<lparr>session_head = (\<lambda>(n::nat) u. (Inl ConnectTimeout, Suc n)),
                       session_get = (\<lambda>n u. (Inl ConnectionError, Suc n))\<rparr>"
  let ?s1 = "\<lparr>session_head = (\<lambda>(n::nat) u. (Inr \<lparr>status_code = 405, resp_url = u, is_redirect = False,
                                              history = [], resp_text = []\<rparr>, Suc n)),
        session_get = (\<lambda>n u. (Inl ConnectionError, Suc n))\<rparr>"
  let ?card = "Element ''article'' [] [Element ''a'' [(''href'', ''https://example.com/a'')] [Text ''Title'']]"
  let ?scr = "\<lparr>language = ''en'', region = ''US'', decode_articles = True\<rparr>"
  have raw: "extract_raw_article_url (urljoin lib) ?card = Some ''https://example.com/a''" for lib :: library
    by (simp add: extract_raw_article_url_def link_href_def find_with_attr_def resolve_href_def startswith_def)
  have a: "fst (session_head ?s0 0 ''https://example.com/a'') = Inl ConnectTimeout" by simp
  have b: "fst (resolve_redirect ?s0 0 ''https://example.com/a'') = Inr None"
    using resolve_redirect_catches_failures
      [where sess = ?s0 and net = 0 and u = "''https://example.com/a''" and e = ConnectTimeout] a
    by blast
  have c: "fst (resolve_redirect ?s1 0 ''https://example.com/a'') = Inr None"
    using resolve_redirect_catches_failures
      [where sess = ?s1 and net = 0 and u = "''https://example.com/a''" and e = ConnectionError
       and net_after = 1
       and resp = "\<lparr>status_code = 405, resp_url = ''https://example.com/a'',
                      is_redirect = False, history = [], resp_text = []\<rparr>"]
    by simp
  have d: "\<exists>item rest net'.
        search_loop lib ?s0 ?scr ''search'' 50 0 [] [?card] = (Inr (item # rest), net')
        \<and> articleUrl item = ''https://example.com/a'' \<and> decodedArticleUrl item = None" for lib :: library
    using resolve_redirect_catches_failures
      [where sess = ?s0 and net = 0 and u = "''https://example.com/a''" and e = ConnectTimeout
        and lib = lib and article_tag = ?card and scr = ?scr and search_url = "''search''"
        and max_items = 50 and tags = "[]"] raw [of lib] b
    by simp
  show ?thesis using a b c d by blast
qed

text \<open>
  C10, as the claim states it, fails: the URL returned is the URL of the response, and
  the \<open>requests\<close> library reports the URL it requested after normalising it. For the
  article URL \<open>https://news.google.com\<close> it reports \<open>https://news.google.com/\<close>: the
  \<open>HEAD\<close> request succeeds with status 200, no redirect and an empty history, and the
  resolved URL is not equal to the article URL.
\<close>

theorem resolve_redirect_url_differs_counterexample:
  "resolve_redirect
     \<lparr>session_head = (\<lambda>(n::nat) u. (Inr \<lparr>status_code = 200, resp_url = u @ ''/'', is_redirect = False,
                                            history = [], resp_text = []\<rparr>, Suc n)),
      session_get = (\<lambda>n u. (Inl ConnectionError, Suc n))\<rparr> 0 ''https://news.google.com''
     = (Inr (Some ''https://news.google.com/''), 1)
   \<and> ''https://news.google.com/'' \<noteq> ''https://news.google.com''"
  by (simp add: resolve_redirect_def resolve_redirect_try_def)

text \<open>
  C10, amended. When the \<open>HEAD\<close> request succeeds with a status below 400, is no
  redirect and has an empty history, \<open>_resolve_redirect\<close> returns the URL of that
  response, as the library reports it, and not \<open>None\<close>; no \<open>GET\<close> request is made.
\<close>

theorem resolve_redirect_without_redirect:
  "session_head sess net u = (Inr resp, net_after) \<Longrightarrow> \<not> is_redirect resp \<Longrightarrow> history resp = []
     \<Longrightarrow> status_code resp < 400
     \<Longrightarrow> resolve_redirect sess net u = (Inr (Some (resp_url resp)), net_after)"
  by (simp add: resolve_redirect_def resolve_redirect_try_def)

theorem resolve_redirect_without_redirect_witness:
  "resolve_redirect
     \<lparr>session_head = (\<lambda>(n::nat) u. (Inr \<lparr>status_code = 200, resp_url = u, is_redirect = False,
                                            history = [], resp_text = []\<rparr>, Suc n)),
      session_get = (\<lambda>n u. (Inl ConnectionError, Suc n))\<rparr> 0 ''https://example.com/a''
     = (Inr (Some ''https://example.com/a''), 1)"
proof -
  let ?resp = "\<lparr>status_code = 200, resp_url = ''https://example.com/a'', is_redirect = False,
                 history = [], resp_text = []\<rparr>"
  let ?sess = "\<lparr>session_head = (\<lambda>(n::nat) u. (Inr \<lparr>status_code = 200, resp_url = u, is_redirect = False,
                                            history = [], resp_text = []\<rparr>, Suc n)),
      session_get = (\<lambda>n u. (Inl ConnectionError, Suc n))\<rparr>"
  have h1: "session_head ?sess 0 ''https://example.com/a'' = (Inr ?resp, 1)" by simp
  have h2: "\<not> is_redirect ?resp" by simp
  have h3: "history ?resp = []" by simp
  have h4: "status_code ?resp < 400" by simp
  show ?thesis
    using resolve_redirect_without_redirect [OF h1 h2 h3 h4] by simp
qed

section \<open>Properties of the field extractors\<close>








lemma icon_loop_Some:
  "(icon_loop (Some (s, a)) imgs = Some (s, a)
      \<and> (\<forall>j \<in> set imgs. \<forall>aj. img_area j = Some aj \<longrightarrow> a \<le> aj))
   \<or> (\<exists>pre m am post. filter (\<lambda>i. img_area i \<noteq> None) imgs = pre @ m # post
        \<and> icon_loop (Some (s, a)) imgs = Some (m, am) \<and> img_area m = Some am \<and> am < a
        \<and> (\<forall>j \<in> set pre. \<forall>aj. img_area j = Some aj \<longrightarrow> am < aj)
        \<and> (\<forall>j \<in> set post. \<forall>aj. img_area j = Some aj \<longrightarrow> am \<le> aj))"
proof (induction imgs arbitrary: s a)
  case Nil
  show ?case by simp
next
  case (Cons img imgs)
  show ?case
  proof (cases "img_area img")
    case None
    show ?thesis
      using Cons.IH [of s a] None by auto
  next
    case (Some ar)
    show ?thesis
    proof (cases "ar < a")
      case True
      from Cons.IH [of img ar] show ?thesis
      proof (elim disjE conjE exE)
        assume 1: "icon_loop (Some (img, ar)) imgs = Some (img, ar)"
          and 2: "\<forall>j \<in> set imgs. \<forall>aj. img_area j = Some aj \<longrightarrow> ar \<le> aj"
        have "filter (\<lambda>i. img_area i \<noteq> None) (img # imgs) = [] @ img # filter (\<lambda>i. img_area i \<noteq> None) imgs"
          using Some by simp
        moreover have "icon_loop (Some (s, a)) (img # imgs) = Some (img, ar)"
          using Some True 1 by simp
        moreover have "\<forall>j \<in> set (filter (\<lambda>i. img_area i \<noteq> None) imgs). \<forall>aj. img_area j = Some aj \<longrightarrow> ar \<le> aj"
          using 2 by auto
        ultimately show ?thesis using Some True
          by (intro disjI2 exI [where x = "[]"] exI [where x = img] exI [where x = ar]
              exI [where x = "filter (\<lambda>i. img_area i \<noteq> None) imgs"]) simp
      next
        fix pre m am post
        assume 1: "filter (\<lambda>i. img_area i \<noteq> None) imgs = pre @ m # post"
          and 2: "icon_loop (Some (img, ar)) imgs = Some (m, am)"
          and 3: "img_area m = Some am" and 4: "am < ar"
          and 5: "\<forall>j \<in> set pre. \<forall>aj. img_area j = Some aj \<longrightarrow> am < aj"
          and 6: "\<forall>j \<in> set post. \<forall>aj. img_area j = Some aj \<longrightarrow> am \<le> aj"
        have "filter (\<lambda>i. img_area i \<noteq> None) (img # imgs) = (img # pre) @ m # post"
          using Some 1 by simp
        moreover have "icon_loop (Some (s, a)) (img # imgs) = Some (m, am)"
          using Some True 2 by simp
        moreover have "\<forall>j \<in> set (img # pre). \<forall>aj. img_area j = Some aj \<longrightarrow> am < aj"
          using 5 4 Some by simp
        moreover have "am < a" using 4 True by simp
        ultimately show ?thesis using 3 6 by blast
      qed
    next
      case False
      from Cons.IH [of s a] show ?thesis
      proof (elim disjE conjE exE)
        assume 1: "icon_loop (Some (s, a)) imgs = Some (s, a)"
          and 2: "\<forall>j \<in> set imgs. \<forall>aj. img_area j = Some aj \<longrightarrow> a \<le> aj"
        have "icon_loop (Some (s, a)) (img # imgs) = Some (s, a)"
          using Some False 1 by simp
        moreover have "\<forall>j \<in> set (img # imgs). \<forall>aj. img_area j = Some aj \<longrightarrow> a \<le> aj"
          using 2 Some False by simp
        ultimately show ?thesis by blast
      next
        fix pre m am post
        assume 1: "filter (\<lambda>i. img_area i \<noteq> None) imgs = pre @ m # post"
          and 2: "icon_loop (Some (s, a)) imgs = Some (m, am)"
          and 3: "img_area m = Some am" and 4: "am < a"
          and 5: "\<forall>j \<in> set pre. \<forall>aj. img_area j = Some aj \<longrightarrow> am < aj"
          and 6: "\<forall>j \<in> set post. \<forall>aj. img_area j = Some aj \<longrightarrow> am \<le> aj"
        have "filter (\<lambda>i. img_area i \<noteq> None) (img # imgs) = (img # pre) @ m # post"
          using Some 1 by simp
        moreover have "icon_loop (Some (s, a)) (img # imgs) = Some (m, am)"
          using Some False 2 by simp
        moreover have "\<forall>j \<in> set (img # pre). \<forall>aj. img_area j = Some aj \<longrightarrow> am < aj"
          using 5 4 Some False by simp
        ultimately show ?thesis using 3 4 6 by blast
      qed
    qed
  qed
qed

lemma icon_loop_None:
  "(filter (\<lambda>i. img_area i \<noteq> None) imgs = [] \<and> icon_loop None imgs = None)
   \<or> (\<exists>pre m am post. filter (\<lambda>i. img_area i \<noteq> None) imgs = pre @ m # post
        \<and> icon_loop None imgs = Some (m, am) \<and> img_area m = Some am
        \<and> (\<forall>j \<in> set pre. \<forall>aj. img_area j = Some aj \<longrightarrow> am < aj)
        \<and> (\<forall>j \<in> set post. \<forall>aj. img_area j = Some aj \<longrightarrow> am \<le> aj))"
proof (induction imgs)
  case Nil
  show ?case by simp
next
  case (Cons img imgs)
  show ?case
  proof (cases "img_area img")
    case None
    show ?thesis using Cons.IH None by simp
  next
    case (Some ar)
    from icon_loop_Some [of img ar imgs] show ?thesis
    proof (elim disjE conjE exE)
      assume 1: "icon_loop (Some (img, ar)) imgs = Some (img, ar)"
        and 2: "\<forall>j \<in> set imgs. \<forall>aj. img_area j = Some aj \<longrightarrow> ar \<le> aj"
      have "filter (\<lambda>i. img_area i \<noteq> None) (img # imgs) = [] @ img # filter (\<lambda>i. img_area i \<noteq> None) imgs"
        using Some by simp
      moreover have "icon_loop None (img # imgs) = Some (img, ar)"
        using Some 1 by simp
      moreover have "\<forall>j \<in> set (filter (\<lambda>i. img_area i \<noteq> None) imgs). \<forall>aj. img_area j = Some aj \<longrightarrow> ar \<le> aj"
        using 2 by auto
      ultimately show ?thesis using Some
        by (intro disjI2 exI [where x = "[]"] exI [where x = img] exI [where x = ar]
            exI [where x = "filter (\<lambda>i. img_area i \<noteq> None) imgs"]) simp
    next
      fix pre m am post
      assume 1: "filter (\<lambda>i. img_area i \<noteq> None) imgs = pre @ m # post"
        and 2: "icon_loop (Some (img, ar)) imgs = Some (m, am)"
        and 3: "img_area m = Some am" and 4: "am < ar"
        and 5: "\<forall>j \<in> set pre. \<forall>aj. img_area j = Some aj \<longrightarrow> am < aj"
        and 6: "\<forall>j \<in> set post. \<forall>aj. img_area j = Some aj \<longrightarrow> am \<le> aj"
      have "filter (\<lambda>i. img_area i \<noteq> None) (img # imgs) = (img # pre) @ m # post"
        using Some 1 by simp
      moreover have "icon_loop None (img # imgs) = Some (m, am)"
        using Some 2 by simp
      moreover have "\<forall>j \<in> set (img # pre). \<forall>aj. img_area j = Some aj \<longrightarrow> am < aj"
        using 5 4 Some by simp
      ultimately show ?thesis using 3 6 by blast
    qed
  qed
qed

lemma img_area_iff:
  "img_area i = Some a \<longleftrightarrow>
     (\<exists>w h. py_int (attr_value i ''width'') = Inr w \<and> py_int (attr_value i ''height'') = Inr h
        \<and> a = w * h)"
  by (auto simp add: img_area_def split: sum.splits)

lemma icon_example:
  "extract_source_icon (Element ''article'' []
      [Element ''img'' [(''src'', ''big.png''), (''width'', ''100''), (''height'', ''100'')] [],
       Element ''img'' [(''src'', ''small.png''), (''width'', ''10''), (''height'', ''10'')] [],
       Element ''img'' [(''src'', ''plain.png'')] []]) = Some ''small.png''"
  by (simp add: extract_source_icon_def find_all_def img_area_def attr_value_def int_of_string_def
      is_int_space_def int_max_str_digits_def is_digit_def digit_val_def or_else_def)

text \<open>
  C6. Among the images of the card whose \<open>width\<close> and \<open>height\<close> both convert with
  \<open>int()\<close>, \<open>_extract_source_icon\<close> selects one whose product of width and height is
  the smallest (the first such in document order) and returns its \<open>src\<close>, or its
  \<open>data-src\<close> when \<open>src\<close> is missing or empty. It returns absent when no image has
  both dimensions. For images of 100 by 100, 10 by 10 and without dimensions it
  returns the source of the 10 by 10 image.
\<close>

theorem extract_source_icon_smallest_area:
  "(filter (\<lambda>i. img_area i \<noteq> None) (find_all ''img'' article) = []
      \<longrightarrow> extract_source_icon article = None)
   \<and> (filter (\<lambda>i. img_area i \<noteq> None) (find_all ''img'' article) \<noteq> []
      \<longrightarrow> (\<exists>pre m am post.
            filter (\<lambda>i. img_area i \<noteq> None) (find_all ''img'' article) = pre @ m # post
            \<and> img_area m = Some am
            \<and> (\<forall>j \<in> set pre. \<forall>aj. img_area j = Some aj \<longrightarrow> am < aj)
            \<and> (\<forall>j \<in> set post. \<forall>aj. img_area j = Some aj \<longrightarrow> am \<le> aj)
            \<and> extract_source_icon article = or_else (get_attr m ''src'') (get_attr m ''data-src'')))
   \<and> (img_area i = Some a \<longleftrightarrow>
        (\<exists>w h. py_int (attr_value i ''width'') = Inr w \<and> py_int (attr_value i ''height'') = Inr h
           \<and> a = w * h))
   \<and> extract_source_icon (Element ''article'' []
        [Element ''img'' [(''src'', ''big.png''), (''width'', ''100''), (''height'', ''100'')] [],
         Element ''img'' [(''src'', ''small.png''), (''width'', ''10''), (''height'', ''10'')] [],
         Element ''img'' [(''src'', ''plain.png'')] []]) = Some ''small.png''"
proof -
  let ?imgs = "find_all ''img'' article"
  let ?sized = "filter (\<lambda>i. img_area i \<noteq> None) ?imgs"
  have a: "?sized = [] \<longrightarrow> extract_source_icon article = None"
    using icon_loop_None [of ?imgs] by (auto simp add: extract_source_icon_def Let_def)
  have b: "?sized \<noteq> [] \<longrightarrow> (\<exists>pre m am post.
            ?sized = pre @ m # post
            \<and> img_area m = Some am
            \<and> (\<forall>j \<in> set pre. \<forall>aj. img_area j = Some aj \<longrightarrow> am < aj)
            \<and> (\<forall>j \<in> set post. \<forall>aj. img_area j = Some aj \<longrightarrow> am \<le> aj)
            \<and> extract_source_icon article = or_else (get_attr m ''src'') (get_attr m ''data-src''))"
  proof
    assume ne: "?sized \<noteq> []"
    then have imgs: "?imgs \<noteq> []" by auto
    from icon_loop_None [of ?imgs] ne obtain pre m am post where
      1: "?sized = pre @ m # post" and 2: "icon_loop None ?imgs = Some (m, am)"
      and 3: "img_area m = Some am"
      and 4: "\<forall>j \<in> set pre. \<forall>aj. img_area j = Some aj \<longrightarrow> am < aj"
      and 5: "\<forall>j \<in> set post. \<forall>aj. img_area j = Some aj \<longrightarrow> am \<le> aj"
      by blast
    have "extract_source_icon article = or_else (get_attr m ''src'') (get_attr m ''data-src'')"
      using imgs 2 by (simp add: extract_source_icon_def Let_def)
    with 1 3 4 5 show "\<exists>pre m am post.
            ?sized = pre @ m # post
            \<and> img_area m = Some am
            \<and> (\<forall>j \<in> set pre. \<forall>aj. img_area j = Some aj \<longrightarrow> am < aj)
            \<and> (\<forall>j \<in> set post. \<forall>aj. img_area j = Some aj \<longrightarrow> am \<le> aj)
            \<and> extract_source_icon article = or_else (get_attr m ''src'') (get_attr m ''data-src'')"
      by blast
  qed
  show ?thesis using a b img_area_iff [of i a] icon_example by blast
qed

theorem extract_source_icon_smallest_area_witness:
  "filter (\<lambda>i. img_area i \<noteq> None)
       (find_all ''img'' (Element ''article'' [] [Element ''img'' [(''src'', ''plain.png'')] []])) = []
   \<and> extract_source_icon (Element ''article'' [] [Element ''img'' [(''src'', ''plain.png'')] []]) = None
   \<and> filter (\<lambda>i. img_area i \<noteq> None)
       (find_all ''img'' (Element ''article'' []
          [Element ''img'' [(''src'', ''plain.png'')] [],
           Element ''img'' [(''data-src'', ''icon.png''), (''width'', ''16''), (''height'', ''16'')] []]))
       = [Element ''img'' [(''data-src'', ''icon.png''), (''width'', ''16''), (''height'', ''16'')] []]
   \<and> extract_source_icon (Element ''article'' []
          [Element ''img'' [(''src'', ''plain.png'')] [],
           Element ''img'' [(''data-src'', ''icon.png''), (''width'', ''16''), (''height'', ''16'')] []])
       = Some ''icon.png''"
  using extract_source_icon_smallest_area
      [of "Element ''article'' [] [Element ''img'' [(''src'', ''plain.png'')] []]"]
    extract_source_icon_smallest_area
      [of "Element ''article'' []
          [Element ''img'' [(''src'', ''plain.png'')] [],
           Element ''img'' [(''data-src'', ''icon.png''), (''width'', ''16''), (''height'', ''16'')] []]"]
  by (simp add: extract_source_icon_def find_all_def img_area_def attr_value_def int_of_string_def
      is_int_space_def int_max_str_digits_def is_digit_def digit_val_def or_else_def)


section \<open>Properties of the search\<close>

text \<open>
  C1. The loop of \<open>search\<close> tests \<open>len(articles) >= max_items\<close> only after it has
  appended a record. With \<open>max_items = 0\<close> and a page of one card that has a URL, the
  search returns one record, where the claim (and the docstring, \<open>Maximum number of
  articles to extract\<close>) has it return at most \<open>max_items\<close> records.
\<close>

theorem search_max_items_zero_returns_one:
  "fst (search
      \<lparr>urljoin = uj, urlencode = ue,
        parse_html = (\<lambda>html. Element ''[document]'' []
           [Element ''article'' [] [Element ''a'' [(''href'', ''https://example.com/a'')] [Text ''Title'']]]),
        fuzzy_iso = fz\<rparr>
      \<lparr>session_head = head_request,
        session_get = (\<lambda>n u. (Inr \<lparr>status_code = 200, resp_url = u, is_redirect = False,
                                      history = [], resp_text = ''<html>''\<rparr>, n))\<rparr>
      \<lparr>language = ''en'', region = ''US'', decode_articles = False\<rparr>
      net ''banana'' None 0)
   = Inr [[(''googleNewsUrl'', PStr (GOOGLE_NEWS_BASE @ ''/search?'' @
              ue [(''q'', ''banana''), (''hl'', ''en-US''), (''gl'', ''US''), (''ceid'', ''US:en'')])),
           (''articleUrl'', PStr ''https://example.com/a''),
           (''decodedArticleUrl'', PNone),
           (''title'', PStr ''Title''),
           (''publishedAt'', PNone),
           (''imageUrl'', PNone),
           (''source'', PNone),
           (''sourceIconUrl'', PNone),
           (''author'', PNone)]]"
  by (simp add: search_def get_page_def build_search_url_def find_all_def find_first_def
      extract_raw_article_url_def link_href_def find_with_attr_def resolve_href_def startswith_def
      extract_title_def get_text_def strip_def is_space_def
      extract_published_at_def extract_image_def extract_source_def extract_source_icon_def
      extract_author_def to_dict_def opt_value_def Let_def)

text \<open>
  With a limit of at least one, and a page request that succeeds, \<open>search\<close> returns
  the records of the first \<open>max_items\<close> cards, in document order, among the cards
  whose raw URL is present and not empty: no more than \<open>max_items\<close> records, each
  built from its card by the extractors, and none for a card without a URL.
\<close>

theorem search_returns_first_cards:
  fixes lib :: library and scr :: scraper
  defines "has_url \<equiv> (\<lambda>article_tag.
      case extract_raw_article_url (urljoin lib) article_tag of None \<Rightarrow> False | Some raw_url \<Rightarrow> raw_url \<noteq> [])"
  assumes "1 \<le> max_items"
    and "get_page sess net (build_search_url lib scr query when) = (Inr html, net1)"
  shows "\<exists>articles net'. search lib sess scr net query when max_items = (Inr (map to_dict articles), net')
     \<and> length articles \<le> nat max_items
     \<and> length articles = min (nat max_items) (length (filter has_url (find_all ''article'' (parse_html lib html))))
     \<and> list_all2 (\<lambda>item article_tag.
            googleNewsUrl item = build_search_url lib scr query when
            \<and> extract_raw_article_url (urljoin lib) article_tag = Some (articleUrl item)
            \<and> (decode_articles scr \<or> decodedArticleUrl item = None)
            \<and> title item = extract_title article_tag
            \<and> publishedAt item = extract_published_at (fuzzy_iso lib) article_tag
            \<and> imageUrl item = extract_image article_tag
            \<and> source item = extract_source article_tag
            \<and> sourceIconUrl item = extract_source_icon article_tag
            \<and> author item = extract_author article_tag)
          articles (take (nat max_items) (filter has_url (find_all ''article'' (parse_html lib html))))"
proof -
  let ?url = "build_search_url lib scr query when"
  let ?tags = "find_all ''article'' (parse_html lib html)"
  from search_loop_appends [of lib sess scr ?url max_items net1 "[]" ?tags]
  obtain new net' where
    1: "search_loop lib sess scr ?url max_items net1 [] ?tags = (Inr new, net')"
    and 2: "list_all2 (\<lambda>item article_tag.
            googleNewsUrl item = ?url
            \<and> extract_raw_article_url (urljoin lib) article_tag = Some (articleUrl item)
            \<and> (decode_articles scr \<or> decodedArticleUrl item = None)
            \<and> title item = extract_title article_tag
            \<and> publishedAt item = extract_published_at (fuzzy_iso lib) article_tag
            \<and> imageUrl item = extract_image article_tag
            \<and> source item = extract_source article_tag
            \<and> sourceIconUrl item = extract_source_icon article_tag
            \<and> author item = extract_author article_tag)
          new (take (max 1 (nat (max_items - int (length ([] :: GoogleNewsArticle list))))) (filter has_url ?tags))"
    unfolding has_url_def by auto
  have m: "max 1 (nat (max_items - int (length ([] :: GoogleNewsArticle list)))) = nat max_items"
    using assms(2) by simp
  have len: "length new = min (nat max_items) (length (filter has_url ?tags))"
    using list_all2_lengthD [OF 2] unfolding m by simp
  have s: "search lib sess scr net query when max_items = (Inr (map to_dict new), net')"
    using assms(3) 1 by (simp add: search_def Let_def)
  show ?thesis
    using s len 2 unfolding m by (intro exI [where x = new] exI [where x = net']) simp
qed

theorem search_returns_first_cards_witness:
  "\<forall>uj ue fz. \<exists>articles net'.
     search \<lparr>urljoin = uj, urlencode = ue,
        parse_html = (\<lambda>html. Element ''[document]'' []
           [Element ''article'' [] [Element ''a'' [(''href'', ''https://example.com/a'')] [Text ''A'']],
            Element ''article'' [] [Element ''a'' [] [Text ''no link'']],
            Element ''article'' [] [Element ''a'' [(''href'', ''https://example.com/b'')] [Text ''B'']],
            Element ''article'' [] [Element ''a'' [(''href'', ''https://example.com/c'')] [Text ''C'']]]),
        fuzzy_iso = fz\<rparr>
      \<lparr>session_head = (\<lambda>(n::nat) u. (Inl ConnectTimeout, n)),
        session_get = (\<lambda>n u. (Inr \<lparr>status_code = 200, resp_url = u, is_redirect = False,
                                      history = [], resp_text = ''<html>''\<rparr>, n))\<rparr>
      \<lparr>language = ''en'', region = ''US'', decode_articles = False\<rparr>
      0 ''banana'' None 2 = (Inr (map to_dict articles), net')
     \<and> map articleUrl articles = [''https://example.com/a'', ''https://example.com/b'']"
proof (intro allI)
  fix uj :: "string \<Rightarrow> string \<Rightarrow> string" and ue :: "(string \<times> string) list \<Rightarrow> string"
    and fz :: "string \<Rightarrow> string option"
  let ?page = "Element ''[document]'' []
           [Element ''article'' [] [Element ''a'' [(''href'', ''https://example.com/a'')] [Text ''A'']],
            Element ''article'' [] [Element ''a'' [] [Text ''no link'']],
            Element ''article'' [] [Element ''a'' [(''href'', ''https://example.com/b'')] [Text ''B'']],
            Element ''article'' [] [Element ''a'' [(''href'', ''https://example.com/c'')] [Text ''C'']]]"
  let ?lib = "\<lparr>urljoin = uj, urlencode = ue, parse_html = (\<lambda>html. ?page), fuzzy_iso = fz\<rparr>"
  let ?sess = "\<lparr>session_head = (\<lambda>(n::nat) u. (Inl ConnectTimeout, n)),
        session_get = (\<lambda>n u. (Inr \<lparr>status_code = 200, resp_url = u, is_redirect = False,
                                      history = [], resp_text = ''<html>''\<rparr>, n))\<rparr>"
  let ?scr = "\<lparr>language = ''en'', region = ''US'', decode_articles = False\<rparr>"
  have h1: "(1::int) \<le> 2" by simp
  have h2: "get_page ?sess 0 (build_search_url ?lib ?scr ''banana'' None) = (Inr ''<html>'', 0)"
    by (simp add: get_page_def)
  from search_returns_first_cards [OF h1 h2]
  obtain articles net' where
    s: "search ?lib ?sess ?scr 0 ''banana'' None 2 = (Inr (map to_dict articles), net')"
    and l: "list_all2 (\<lambda>item article_tag.
            googleNewsUrl item = build_search_url ?lib ?scr ''banana'' None
            \<and> extract_raw_article_url (urljoin ?lib) article_tag = Some (articleUrl item)
            \<and> (decode_articles ?scr \<or> decodedArticleUrl item = None)
            \<and> title item = extract_title article_tag
            \<and> publishedAt item = extract_published_at (fuzzy_iso ?lib) article_tag
            \<and> imageUrl item = extract_image article_tag
            \<and> source item = extract_source article_tag
            \<and> sourceIconUrl item = extract_source_icon article_tag
            \<and> author item = extract_author article_tag)
          articles (take (nat 2) (filter (\<lambda>article_tag.
              case extract_raw_article_url (urljoin ?lib) article_tag of None \<Rightarrow> False | Some raw_url \<Rightarrow> raw_url \<noteq> [])
            (find_all ''article'' (parse_html ?lib ''<html>''))))"
    by blast
  have m: "map articleUrl articles = [''https://example.com/a'', ''https://example.com/b'']"
    using l
    by (auto simp add: find_all_def extract_raw_article_url_def link_href_def find_with_attr_def
        resolve_href_def startswith_def list_all2_Cons2)
  show "\<exists>articles net'.
     search ?lib ?sess ?scr 0 ''banana'' None 2 = (Inr (map to_dict articles), net')
     \<and> map articleUrl articles = [''https://example.com/a'', ''https://example.com/b'']"
  proof (intro exI conjI)
    show "search ?lib ?sess ?scr 0 ''banana'' None 2 = (Inr (map to_dict articles), net')"
      by (rule s)
    show "map articleUrl articles = [''https://example.com/a'', ''https://example.com/b'']"
      by (rule m)
  qed
qed

section \<open>Properties of the JSON export\<close>

lemma hex_val_hex_char: "d < 16 \<Longrightarrow> hex_val (hex_char d) = Some d"
proof -
  assume "d < 16"
  then have "d \<in> {0, 1, 2, 3, 4, 5, 6, 7, 8, 9, 10, 11, 12, 13, 14, 15}" by simp arith
  then show ?thesis
    by (elim insertE emptyE) (simp_all add: hex_char_def hex_val_def)
qed

lemma hex4_escape:
  assumes "n < 32"
  shows "hex4 (CHR ''0'' # CHR ''0'' # hex_char (n div 16) # hex_char (n mod 16) # X) = Some n"
proof -
  have a: "hex_val (hex_char (n div 16)) = Some (n div 16)"
    using assms by (intro hex_val_hex_char) simp
  have b: "hex_val (hex_char (n mod 16)) = Some (n mod 16)"
    by (intro hex_val_hex_char) simp
  have z: "hex_val CHR ''0'' = Some 0" by (simp add: hex_val_def)
  show ?thesis by (simp add: hex4_def a b z)
qed

lemma scan_string_escape_char:
  "scan_string (escape_char c @ X) = cons_result c (scan_string X)"
proof -
  consider (quote) "c = CHR ''\"''" | (bs) "c = CHR 0x5C" | (nl) "c = CHR 0x0A" | (cr) "c = CHR 0x0D"
    | (tab) "c = CHR 0x09" | (b) "c = CHR 0x08" | (ff) "c = CHR 0x0C"
    | (ctl) "c \<noteq> CHR ''\"''" "c \<noteq> CHR 0x5C" "c \<noteq> CHR 0x0A" "c \<noteq> CHR 0x0D" "c \<noteq> CHR 0x09"
        "c \<noteq> CHR 0x08" "c \<noteq> CHR 0x0C" "(of_char c :: nat) < 32"
    | (plain) "c \<noteq> CHR ''\"''" "c \<noteq> CHR 0x5C" "c \<noteq> CHR 0x0A" "c \<noteq> CHR 0x0D" "c \<noteq> CHR 0x09"
        "c \<noteq> CHR 0x08" "c \<noteq> CHR 0x0C" "\<not> (of_char c :: nat) < 32"
    by blast
  then show ?thesis
  proof cases
    case quote then show ?thesis by (simp add: escape_char_def unescape_def)
  next
    case bs then show ?thesis by (simp add: escape_char_def unescape_def)
  next
    case nl then show ?thesis by (simp add: escape_char_def unescape_def)
  next
    case cr then show ?thesis by (simp add: escape_char_def unescape_def)
  next
    case tab then show ?thesis by (simp add: escape_char_def unescape_def)
  next
    case b then show ?thesis by (simp add: escape_char_def unescape_def)
  next
    case ff then show ?thesis by (simp add: escape_char_def unescape_def)
  next
    case ctl
    have e: "escape_char c = [CHR 0x5C, CHR ''u'', CHR ''0'', CHR ''0'',
              hex_char ((of_char c :: nat) div 16), hex_char ((of_char c :: nat) mod 16)]"
      using ctl by (simp add: escape_char_def)
    have lt: "(of_char c :: nat) < 256"
      using ctl(8) by simp
    show ?thesis
      unfolding e using hex4_escape [OF ctl(8)] lt by simp
  next
    case plain
    then show ?thesis by (simp add: escape_char_def)
  qed
qed

lemma scan_string_escaped:
  "scan_string (concat (map escape_char s) @ CHR ''\"'' # rest) = Some (s, rest)"
  by (induction s) (simp_all add: scan_string_escape_char cons_result_def)

lemma skip_ws_nonws: "\<not> is_json_ws c \<Longrightarrow> skip_ws (c # s) = c # s"
  by (simp add: skip_ws_def)

lemma json_string_Cons:
  "json_string s @ X = CHR ''\"'' # concat (map escape_char s) @ CHR ''\"'' # X"
  by (simp add: json_string_def)

lemma parse_value_json_value:
  assumes "\<forall>i. v \<noteq> PInt i"
  shows "parse_value (json_value v @ X) = Some (v, X)"
proof (cases v)
  case PNone
  then show ?thesis by (simp add: parse_value_def startswith_def)
next
  case (PBool b)
  then show ?thesis by (cases b) (simp_all add: parse_value_def startswith_def)
next
  case (PInt i)
  then show ?thesis using assms by simp
next
  case (PStr s)
  then show ?thesis
    by (simp add: parse_value_def startswith_def json_string_Cons scan_string_escaped)
qed

lemma skip_ws_json_value:
  assumes "\<forall>i. v \<noteq> PInt i"
  shows "skip_ws (json_value v @ X) = json_value v @ X"
proof (cases v)
  case PNone
  then show ?thesis by (simp add: skip_ws_def is_json_ws_def)
next
  case (PBool b)
  then show ?thesis by (cases b) (simp_all add: skip_ws_def is_json_ws_def)
next
  case (PInt i)
  then show ?thesis using assms by simp
next
  case (PStr s)
  then show ?thesis by (simp add: json_string_Cons skip_ws_def is_json_ws_def)
qed

lemma parse_members_step:
  assumes "\<forall>i. v \<noteq> PInt i"
  shows "parse_members (json_string k @ '':'' @ json_value v @ Y) =
     (if startswith (skip_ws Y) ''}'' then Some ([(k, v)], tl (skip_ws Y))
      else if startswith (skip_ws Y) '','' \<and> length (tl (skip_ws Y)) < length (json_string k @ '':'' @ json_value v @ Y)
        then cons_result (k, v) (parse_members (tl (skip_ws Y)))
      else None)"
proof -
  have q: "\<not> is_json_ws CHR ''\"''" and c: "\<not> is_json_ws CHR '':''"
    by (simp_all add: is_json_ws_def)
  show ?thesis
    apply (subst parse_members.simps)
    apply (simp only: json_string_Cons Let_def)
    apply (simp add: skip_ws_nonws [OF q] skip_ws_nonws [OF c] startswith_def scan_string_escaped
        skip_ws_json_value [OF assms] parse_value_json_value [OF assms])
    done
qed

lemma parse_members_round_trip:
  assumes "kvs \<noteq> []" and "\<forall>kv \<in> set kvs. \<forall>i. snd kv \<noteq> PInt i"
  shows "parse_members
           (join '','' (map (\<lambda>(k, v). json_string k @ '':'' @ json_value v) kvs) @ CHR ''}'' # rest)
         = Some (kvs, rest)"
  using assms
proof (induction kvs)
  case Nil
  then show ?case by simp
next
  case (Cons kv kvs)
  obtain k v where kv: "kv = (k, v)" by (cases kv)
  have v: "\<forall>i. v \<noteq> PInt i" using Cons.prems(2) kv by auto
  show ?case
  proof (cases kvs)
    case Nil
    show ?thesis
      using parse_members_step [OF v, of k "CHR ''}'' # rest"]
      by (simp add: Nil kv skip_ws_def is_json_ws_def startswith_def)
  next
    case tail: (Cons kv' kvs')
    have ih: "parse_members
           (join '','' (map (\<lambda>(k, v). json_string k @ '':'' @ json_value v) kvs) @ CHR ''}'' # rest)
         = Some (kvs, rest)"
      using Cons.IH Cons.prems(2) tail by simp
    show ?thesis
      using parse_members_step [OF v, of k
          "CHR '','' # join '','' (map (\<lambda>(k, v). json_string k @ '':'' @ json_value v) kvs) @ CHR ''}'' # rest"]
        ih
      by (simp add: tail kv skip_ws_def is_json_ws_def startswith_def cons_result_def)
  qed
qed

lemma update_fresh: "k \<notin> fst ` set d \<Longrightarrow> AList.update k v d = d @ [(k, v)]"
  by (induction d) auto

lemma foldl_update_distinct:
  "distinct (map fst (d @ kvs)) \<Longrightarrow> foldl (\<lambda>d (k, v). AList.update k v d) d kvs = d @ kvs"
proof (induction kvs arbitrary: d)
  case Nil
  show ?case by simp
next
  case (Cons kv kvs)
  obtain k v where kv: "kv = (k, v)" by (cases kv)
  have fresh: "k \<notin> fst ` set d" using Cons.prems kv by auto
  have "distinct (map fst ((d @ [(k, v)]) @ kvs))" using Cons.prems kv by simp
  from Cons.IH [OF this] show ?case
    by (simp add: kv update_fresh [OF fresh])
qed

lemma dict_of_members_distinct:
  "distinct (map fst kvs) \<Longrightarrow> dict_of_members kvs = kvs"
  using foldl_update_distinct [of "[]" kvs] by (simp add: dict_of_members_def)

lemma parse_object_round_trip:
  assumes "distinct (map fst d)" and "\<forall>kv \<in> set d. \<forall>i. snd kv \<noteq> PInt i"
  shows "parse_object (json_dict_compact d @ X) = Some (d, X)"
proof (cases d)
  case Nil
  then show ?thesis
    by (simp add: parse_object_def json_dict_compact_def skip_ws_def is_json_ws_def startswith_def)
next
  case (Cons kv kvs)
  obtain k v where kv: "kv = (k, v)" by (cases kv)
  have ne: "d \<noteq> []" using Cons by simp
  have m: "parse_members
           (join '','' (map (\<lambda>(k, v). json_string k @ '':'' @ json_value v) d) @ CHR ''}'' # X)
         = Some (d, X)"
    by (rule parse_members_round_trip [OF ne assms(2)])
  have first: "\<exists>Y. join '','' (map (\<lambda>(k, v). json_string k @ '':'' @ json_value v) d) @ CHR ''}'' # X
      = CHR ''\"'' # Y"
    by (cases kvs) (simp_all add: Cons kv json_string_def)
  then obtain Y where Y: "join '','' (map (\<lambda>(k, v). json_string k @ '':'' @ json_value v) d) @ CHR ''}'' # X
      = CHR ''\"'' # Y" by blast
  have s: "json_dict_compact d @ X
      = CHR ''{'' # join '','' (map (\<lambda>(k, v). json_string k @ '':'' @ json_value v) d) @ CHR ''}'' # X"
    by (simp add: json_dict_compact_def)
  show ?thesis
    unfolding s parse_object_def
    using m Y by (simp add: skip_ws_def is_json_ws_def startswith_def dict_of_members_distinct [OF assms(1)])
qed

lemma json_dict_compact_Cons: "\<exists>Y. json_dict_compact d @ X = CHR ''{'' # Y"
  by (simp add: json_dict_compact_def)

lemma parse_objects_step:
  assumes "distinct (map fst d)" and "\<forall>kv \<in> set d. \<forall>i. snd kv \<noteq> PInt i"
  shows "parse_objects (json_dict_compact d @ Y) =
     (if startswith (skip_ws Y) '']'' then Some ([d], tl (skip_ws Y))
      else if startswith (skip_ws Y) '','' \<and> length (tl (skip_ws Y)) < length (json_dict_compact d @ Y)
        then cons_result d (parse_objects (tl (skip_ws Y)))
      else None)"
  by (subst parse_objects.simps) (simp add: parse_object_round_trip [OF assms] Let_def)

lemma parse_objects_round_trip:
  assumes "ds \<noteq> []" and "\<forall>d \<in> set ds. distinct (map fst d) \<and> (\<forall>kv \<in> set d. \<forall>i. snd kv \<noteq> PInt i)"
  shows "parse_objects (join '','' (map json_dict_compact ds) @ CHR '']'' # rest) = Some (ds, rest)"
  using assms
proof (induction ds)
  case Nil
  then show ?case by simp
next
  case (Cons d ds)
  have d1: "distinct (map fst d)" and d2: "\<forall>kv \<in> set d. \<forall>i. snd kv \<noteq> PInt i"
    using Cons.prems(2) by auto
  show ?case
  proof (cases ds)
    case Nil
    show ?thesis
      using parse_objects_step [OF d1 d2, of "CHR '']'' # rest"]
      by (simp add: Nil skip_ws_def is_json_ws_def startswith_def)
  next
    case tail: (Cons d' ds')
    have ih: "parse_objects (join '','' (map json_dict_compact ds) @ CHR '']'' # rest) = Some (ds, rest)"
      using Cons.IH Cons.prems(2) tail by simp
    show ?thesis
      using parse_objects_step [OF d1 d2, of
          "CHR '','' # join '','' (map json_dict_compact ds) @ CHR '']'' # rest"] ih
      by (simp add: tail skip_ws_def is_json_ws_def startswith_def cons_result_def)
  qed
qed

lemma json_loads_dumps_compact:
  assumes "\<forall>d \<in> set ds. distinct (map fst d) \<and> (\<forall>kv \<in> set d. \<forall>i. snd kv \<noteq> PInt i)"
  shows "json_loads (json_dumps_compact ds) = Some ds"
proof (cases ds)
  case Nil
  then show ?thesis
    by (simp add: json_loads_def json_dumps_compact_def skip_ws_def is_json_ws_def startswith_def)
next
  case (Cons d ds')
  have ne: "ds \<noteq> []" using Cons by simp
  have p: "parse_objects (join '','' (map json_dict_compact ds) @ CHR '']'' # []) = Some (ds, [])"
    by (rule parse_objects_round_trip [OF ne assms])
  obtain Y where Y: "join '','' (map json_dict_compact ds) @ '']'' = CHR ''{'' # Y"
    using json_dict_compact_Cons [of d] by (cases ds') (auto simp add: Cons)
  show ?thesis
    using p by (simp add: json_loads_def json_dumps_compact_def Y skip_ws_def is_json_ws_def startswith_def)
qed

lemma to_dict_well_formed:
  "distinct (map fst (to_dict a)) \<and> (\<forall>kv \<in> set (to_dict a). \<forall>i. snd kv \<noteq> PInt i)"
  by (simp add: to_dict_def opt_value_def split: option.splits)

lemma json_loads_dumps_articles:
  "json_loads (json_dumps_compact (map to_dict articles)) = Some (map to_dict articles)"
  by (rule json_loads_dumps_compact) (auto simp add: to_dict_well_formed)

lemma export_to_json_writes:
  "export_to_json fs ds output_path pretty = Inr fs' \<Longrightarrow>
     files fs' output_path = Some (if pretty then json_dumps_pretty ds else json_dumps_compact ds)"
  by (auto simp add: export_to_json_def write_text_def split: sum.splits if_splits)

lemma export_to_json_succeeds:
  "butlast output_path \<in> dirs fs \<Longrightarrow> files fs (butlast output_path) = None \<Longrightarrow> output_path \<notin> dirs fs
     \<Longrightarrow> export_to_json fs ds output_path pretty
         = Inr (fs\<lparr>files := (files fs)(output_path \<mapsto>
                  (if pretty then json_dumps_pretty ds else json_dumps_compact ds))\<rparr>)"
  by (simp add: export_to_json_def ensure_parent_dir_def path_exists_def write_text_def)

text \<open>
  C8. When \<open>export_to_json\<close> with \<open>pretty=False\<close> has written a list of article
  records, loading the file gives the same list back: as many dictionaries, each equal
  to the one written.
\<close>

theorem export_to_json_round_trip:
  "export_to_json fs (map to_dict articles) output_path False = Inr fs' \<Longrightarrow>
     load_json_file fs' output_path = Some (map to_dict articles)
     \<and> (\<exists>loaded. load_json_file fs' output_path = Some loaded \<and> length loaded = length articles)"
proof -
  assume "export_to_json fs (map to_dict articles) output_path False = Inr fs'"
  from export_to_json_writes [OF this]
  have "load_json_file fs' output_path = Some (map to_dict articles)"
    by (simp add: load_json_file_def json_loads_dumps_articles)
  then show ?thesis by simp
qed

lemma json_example:
  "json_dumps_compact (map to_dict
     [\<lparr>googleNewsUrl = ''u'', articleUrl = ''https://example.com/a'', decodedArticleUrl = None,
       title = [CHR ''A'', CHR ''\"'', CHR 0x0A, CHR 0x01], publishedAt = Some ''2024-01-01'',
       imageUrl = None, source = None, sourceIconUrl = None, author = None\<rparr>])
   = ''[{\"googleNewsUrl\":\"u\",\"articleUrl\":\"https://example.com/a\",\"decodedArticleUrl\":null,''
     @ [CHR ''\"'', CHR ''t'', CHR ''i'', CHR ''t'', CHR ''l'', CHR ''e'', CHR ''\"'', CHR '':'', CHR ''\"'',
        CHR ''A'', CHR 0x5C, CHR ''\"'', CHR 0x5C, CHR ''n'', CHR 0x5C, CHR ''u'', CHR ''0'', CHR ''0'', CHR ''0'', CHR ''1'', CHR ''\"'']
     @ '',\"publishedAt\":\"2024-01-01\",\"imageUrl\":null,\"source\":null,\"sourceIconUrl\":null,\"author\":null}]''"
  by (simp add: json_dumps_compact_def json_dict_compact_def to_dict_def opt_value_def json_string_def
      escape_char_def hex_char_def)

theorem export_to_json_round_trip_witness:
  "export_to_json \<lparr>dirs = {[], [''data'']}, files = Map.empty\<rparr>
      (map to_dict
        [\<lparr>googleNewsUrl = ''u'', articleUrl = ''https://example.com/a'', decodedArticleUrl = None,
          title = [CHR ''A'', CHR ''\"'', CHR 0x0A, CHR 0x01], publishedAt = Some ''2024-01-01'',
          imageUrl = None, source = None, sourceIconUrl = None, author = None\<rparr>])
      [''data'', ''out.json''] False
    = Inr \<lparr>dirs = {[], [''data'']},
           files = [[''data'', ''out.json''] \<mapsto> json_dumps_compact (map to_dict
        [\<lparr>googleNewsUrl = ''u'', articleUrl = ''https://example.com/a'', decodedArticleUrl = None,
          title = [CHR ''A'', CHR ''\"'', CHR 0x0A, CHR 0x01], publishedAt = Some ''2024-01-01'',
          imageUrl = None, source = None, sourceIconUrl = None, author = None\<rparr>])]\<rparr>
   \<and> load_json_file \<lparr>dirs = {[], [''data'']},
           files = [[''data'', ''out.json''] \<mapsto> json_dumps_compact (map to_dict
        [\<lparr>googleNewsUrl = ''u'', articleUrl = ''https://example.com/a'', decodedArticleUrl = None,
          title = [CHR ''A'', CHR ''\"'', CHR 0x0A, CHR 0x01], publishedAt = Some ''2024-01-01'',
          imageUrl = None, source = None, sourceIconUrl = None, author = None\<rparr>])]\<rparr>
        [''data'', ''out.json'']
    = Some (map to_dict
        [\<lparr>googleNewsUrl = ''u'', articleUrl = ''https://example.com/a'', decodedArticleUrl = None,
          title = [CHR ''A'', CHR ''\"'', CHR 0x0A, CHR 0x01], publishedAt = Some ''2024-01-01'',
          imageUrl = None, source = None, sourceIconUrl = None, author = None\<rparr>])"
proof -
  let ?ds = "map to_dict
        [\<lparr>googleNewsUrl = ''u'', articleUrl = ''https://example.com/a'', decodedArticleUrl = None,
          title = [CHR ''A'', CHR ''\"'', CHR 0x0A, CHR 0x01], publishedAt = Some ''2024-01-01'',
          imageUrl = None, source = None, sourceIconUrl = None, author = None\<rparr>]"
  have h: "export_to_json \<lparr>dirs = {[], [''data'']}, files = Map.empty\<rparr> ?ds [''data'', ''out.json''] False
    = Inr \<lparr>dirs = {[], [''data'']}, files = [[''data'', ''out.json''] \<mapsto> json_dumps_compact ?ds]\<rparr>"
    by (simp add: export_to_json_def ensure_parent_dir_def path_exists_def write_text_def)
  from export_to_json_round_trip [OF h] h show ?thesis by blast
qed

end
